theory Spec2Isabelle
  imports Complex_Main "HOL-Library.Log_Nat"
begin

section \<open>The savings projection of the Etihad savings dashboard\<close>

text \<open>
  The repository is one Streamlit script, \<^verbatim>\<open>app.py\<close>. Its computational core is the
  function \<^verbatim>\<open>calculate_savings\<close> (lines 133-147) and the payback loop that the script
  runs on its results (lines 162-170); everything else collects inputs or renders
  outputs.

  Numbers. The script computes with Python floats, that is with IEEE 754 binary64:
  every \<open>+\<close>, \<open>-\<close>, \<open>*\<close> and \<open>/\<close> rounds its exact result to the nearest binary64 number.
  The type \<open>f64\<close> and its operations below model this arithmetic, and the definitions
  with the suffix \<open>64\<close> are the script over it. The horizon is a Python \<^verbatim>\<open>int\<close>, here an
  \<^typ>\<open>int\<close>; \<^verbatim>\<open>range(1, years + 1)\<close> is the list \<open>[1..years]\<close>, empty when
  \<open>years < 1\<close>.

  The script is read a second time with exact rational arithmetic (the definitions
  without suffix). That reading serves the statements that rounding cannot touch: the
  shape of the results, and the values at inputs on which every operation of the script
  is exact in binary64. For each of them a lemma on the binary64 model says the same.

  Dictionaries. Python dictionaries keep insertion order, and \<^verbatim>\<open>sum\<close> adds the values
  in that order, so a dictionary is an association list whose keys are distinct.
\<close>

section \<open>Binary64 arithmetic\<close>

text \<open>
  A binary64 number is an infinity, a NaN, or a finite value \<open>m * 2 ^ k\<close> with an integer
  \<open>m\<close> of at most 53 bits and \<open>- 1074 \<le> k\<close>, below \<open>2 ^ 1024\<close> in magnitude. A finite
  float is represented by the rational number it denotes. Binary64 has two zeros,
  \<open>0.0\<close> and \<open>-0.0\<close>; they are equal for \<^verbatim>\<open>==\<close> and \<^verbatim>\<open>>=\<close>, the script never divides by
  a variable, and so they are one value here, \<open>Finite 0\<close>.
\<close>

datatype f64 = Finite rat | PInf | NInf | NaN

text \<open>Rounding a rational number to the nearest integer, ties to the even one.\<close>

definition round_half_even :: "rat \<Rightarrow> int" where
  "round_half_even x =
     (let f = \<lfloor>x\<rfloor>; d = x - of_int f
      in if d < 1 / 2 then f else if 1 / 2 < d then f + 1 else if even f then f else f + 1)"

text \<open>
  The binade of a positive number \<open>q\<close> is the exponent \<open>e\<close> with \<open>2 ^ e \<le> q < 2 ^ (e + 1)\<close>,
  computed from the bit length of an integer; \<open>level\<close> is the exponent binary64 uses for
  \<open>q\<close>, which is never below \<open>- 1022\<close> (the subnormal numbers share the exponent of the
  smallest normal ones), and \<open>quantum\<close> is the distance between neighbouring binary64
  numbers at that exponent: 52 bits below it.
\<close>

definition binade :: "rat \<Rightarrow> int" where
  "binade q = (if 1 \<le> q then bitlen \<lfloor>q\<rfloor> - 1 else - bitlen (\<lceil>1 / q\<rceil> - 1))"

definition level :: "rat \<Rightarrow> int" where
  "level q = max (binade \<bar>q\<bar>) (- 1022)"

definition quantum :: "rat \<Rightarrow> rat" where
  "quantum q = 2 powi (level q - 52)"

text \<open>
  Round to nearest, ties to even: first with an unbounded exponent, then with overflow.
  A result of magnitude \<open>2 ^ 1024\<close> or more is an infinity.
\<close>

definition nearest :: "rat \<Rightarrow> rat" where
  "nearest q = of_int (round_half_even (q / quantum q)) * quantum q"

definition round64 :: "rat \<Rightarrow> f64" where
  "round64 q =
     (let r = nearest q
      in if 2 powi 1024 \<le> r then PInf else if r \<le> - (2 powi 1024) then NInf else Finite r)"

text \<open>
  The values of \<open>f64\<close> that are binary64 numbers: a finite one is a fixed point of the
  rounding. \<open>is_finite64\<close> excludes the infinities and NaN as well; the widgets of the
  script deliver finite floats.
\<close>

definition is_f64 :: "f64 \<Rightarrow> bool" where
  "is_f64 x = (case x of Finite q \<Rightarrow> round64 q = Finite q | _ \<Rightarrow> True)"

definition is_finite64 :: "f64 \<Rightarrow> bool" where
  "is_finite64 x = (case x of Finite q \<Rightarrow> round64 q = Finite q | _ \<Rightarrow> False)"

text \<open>The operations of Python on floats, with the IEEE rules for infinities and NaN.\<close>

fun fneg :: "f64 \<Rightarrow> f64" where
  "fneg (Finite a) = Finite (- a)"
| "fneg PInf = NInf"
| "fneg NInf = PInf"
| "fneg NaN = NaN"

fun fadd :: "f64 \<Rightarrow> f64 \<Rightarrow> f64" where
  "fadd (Finite a) (Finite b) = round64 (a + b)"
| "fadd NaN y = NaN"
| "fadd x NaN = NaN"
| "fadd PInf NInf = NaN"
| "fadd NInf PInf = NaN"
| "fadd PInf y = PInf"
| "fadd x PInf = PInf"
| "fadd NInf y = NInf"
| "fadd x NInf = NInf"

definition fsub :: "f64 \<Rightarrow> f64 \<Rightarrow> f64" where
  "fsub x y = fadd x (fneg y)"

fun fmul :: "f64 \<Rightarrow> f64 \<Rightarrow> f64" where
  "fmul (Finite a) (Finite b) = round64 (a * b)"
| "fmul NaN y = NaN"
| "fmul x NaN = NaN"
| "fmul (Finite a) y = (if a = 0 then NaN else if 0 < a then y else fneg y)"
| "fmul x (Finite b) = (if b = 0 then NaN else if 0 < b then x else fneg x)"
| "fmul PInf y = y"
| "fmul NInf y = fneg y"

text \<open>
  \<^verbatim>\<open>x / n\<close> for a float \<open>x\<close> and an \<^verbatim>\<open>int\<close> literal \<open>n\<close>: Python converts \<open>n\<close> to a float,
  exactly for the two literals of the script, \<open>100\<close> and \<open>1_000_000\<close>, and rounds the
  quotient. The function is meant for these non-zero literals only, so the
  \<^verbatim>\<open>ZeroDivisionError\<close> of a zero divisor is not a case of it.
\<close>

fun fdiv_int :: "f64 \<Rightarrow> int \<Rightarrow> f64" where
  "fdiv_int (Finite a) n = round64 (a / rat_of_int n)"
| "fdiv_int PInf n = (if 0 < n then PInf else NInf)"
| "fdiv_int NInf n = (if 0 < n then NInf else PInf)"
| "fdiv_int NaN n = NaN"

text \<open>\<^verbatim>\<open>x <= y\<close> and \<^verbatim>\<open>x < y\<close>: false whenever an operand is NaN.\<close>

fun fle :: "f64 \<Rightarrow> f64 \<Rightarrow> bool" where
  "fle (Finite a) (Finite b) = (a \<le> b)"
| "fle NaN y = False"
| "fle x NaN = False"
| "fle NInf y = True"
| "fle x PInf = True"
| "fle x y = False"

fun flt :: "f64 \<Rightarrow> f64 \<Rightarrow> bool" where
  "flt (Finite a) (Finite b) = (a < b)"
| "flt NaN y = False"
| "flt x NaN = False"
| "flt PInf y = False"
| "flt x NInf = False"
| "flt x y = True"

section \<open>The script\<close>

subsection \<open>Python helpers\<close>

type_synonym 'v py_dict = "(string \<times> 'v) list"

definition dict_values :: "'v py_dict \<Rightarrow> 'v list" where
  "dict_values d = map snd d"

definition dict_keys :: "'v py_dict \<Rightarrow> string list" where
  "dict_keys d = map fst d"

text \<open>
  \<^verbatim>\<open>sum(xs)\<close>: start from the \<^verbatim>\<open>int\<close> \<open>0\<close> and add the elements from left to right, each
  addition rounded. This is the plain loop of CPython up to version 3.11; from 3.12 on
  \<^verbatim>\<open>sum\<close> compensates the rounding errors of float addends.
\<close>

definition py_sum64 :: "f64 list \<Rightarrow> f64" where
  "py_sum64 xs = foldl (\<lambda>acc x. fadd acc x) (Finite 0) xs"

subsection \<open>\<^verbatim>\<open>calculate_savings\<close> (lines 133-147)\<close>

text \<open>
  The loop of lines 141-145 over the remaining years, with the loop variables
  \<^verbatim>\<open>total_savings\<close> and \<^verbatim>\<open>cumulative_savings\<close> passed along:
  \<^verbatim>\<open>
    for year in range(1, years + 1):
        total_savings += net_annual_savings
        if year == 1:
            total_savings -= consulting_fee
        cumulative_savings.append(total_savings)
  \<close>
\<close>

fun savings_loop64 :: "f64 \<Rightarrow> f64 \<Rightarrow> int list \<Rightarrow> f64 \<Rightarrow> f64 list \<Rightarrow> f64 list" where
  "savings_loop64 net_annual_savings consulting_fee [] total_savings cumulative_savings =
     cumulative_savings"
| "savings_loop64 net_annual_savings consulting_fee (year # years) total_savings cumulative_savings =
     (let total_savings = fadd total_savings net_annual_savings;
          total_savings = (if year = 1 then fsub total_savings consulting_fee else total_savings)
      in savings_loop64 net_annual_savings consulting_fee years total_savings
           (cumulative_savings @ [total_savings]))"

text \<open>
  The function returns the tuple \<^verbatim>\<open>(cumulative_savings, net_annual_savings,
  annual_current_loss, annual_blockchain_cost)\<close>; \<^verbatim>\<open>annual_trapped_total\<close> is a local
  of the function and is not returned. The parameter \<^verbatim>\<open>years\<close> has the default \<open>10\<close>;
  the one call of the script (lines 150-156) passes all five arguments. The variable
  \<^verbatim>\<open>total_savings\<close> starts as the \<^verbatim>\<open>int\<close> \<open>0\<close>, which the first addition converts to
  \<open>0.0\<close>.
  \<^verbatim>\<open>
    annual_trapped_total = sum(trapped_funds.values())
    annual_current_loss = annual_trapped_total * (loss_rate / 100)
    annual_blockchain_cost = annual_trapped_total * (transaction_fee / 100)
    net_annual_savings = annual_current_loss - annual_blockchain_cost
  \<close>
\<close>

definition calculate_savings64 ::
  "f64 \<Rightarrow> f64 py_dict \<Rightarrow> f64 \<Rightarrow> f64 \<Rightarrow> int \<Rightarrow> f64 list \<times> f64 \<times> f64 \<times> f64" where
  "calculate_savings64 transaction_fee trapped_funds loss_rate consulting_fee years =
     (let annual_trapped_total = py_sum64 (dict_values trapped_funds);
          annual_current_loss = fmul annual_trapped_total (fdiv_int loss_rate 100);
          annual_blockchain_cost = fmul annual_trapped_total (fdiv_int transaction_fee 100);
          net_annual_savings = fsub annual_current_loss annual_blockchain_cost;
          cumulative_savings =
            savings_loop64 net_annual_savings consulting_fee [1..years] (Finite 0) []
      in (cumulative_savings, net_annual_savings, annual_current_loss, annual_blockchain_cost))"

subsection \<open>The payback loop (lines 162-170)\<close>

text \<open>
  \<^verbatim>\<open>
    payback_year = None
    cumulative = 0
    for year in range(1, selected_years + 1):
        if year == 1:
            cumulative += net_annual_savings - (consulting_fee / 1_000_000)
        else:
            cumulative += net_annual_savings
        if payback_year is None and cumulative >= 0:
            payback_year = year
  \<close>
  The loop never breaks: it runs over every year and keeps the first year it stored.
\<close>

fun payback_loop64 :: "f64 \<Rightarrow> f64 \<Rightarrow> int list \<Rightarrow> int option \<Rightarrow> f64 \<Rightarrow> int option" where
  "payback_loop64 net_annual_savings consulting_fee [] payback_year cumulative = payback_year"
| "payback_loop64 net_annual_savings consulting_fee (year # years) payback_year cumulative =
     (let cumulative =
            (if year = 1
             then fadd cumulative (fsub net_annual_savings (fdiv_int consulting_fee 1000000))
             else fadd cumulative net_annual_savings);
          payback_year =
            (if payback_year = None \<and> fle (Finite 0) cumulative then Some year
             else payback_year)
      in payback_loop64 net_annual_savings consulting_fee years payback_year cumulative)"

definition payback_period64 :: "f64 \<Rightarrow> f64 \<Rightarrow> int \<Rightarrow> int option" where
  "payback_period64 net_annual_savings consulting_fee selected_years =
     payback_loop64 net_annual_savings consulting_fee [1..selected_years] None (Finite 0)"

text \<open>
  The summary table shows \<^verbatim>\<open>payback_year if payback_year else 'Not within horizon'\<close>
  (line 188): \<^verbatim>\<open>None\<close> and the integer \<open>0\<close> are both false in Python.
\<close>

datatype payback_text = Year int | Not_within_horizon

definition payback_cell :: "int option \<Rightarrow> payback_text" where
  "payback_cell payback_year =
     (case payback_year of
        None \<Rightarrow> Not_within_horizon
      | Some y \<Rightarrow> (if y \<noteq> 0 then Year y else Not_within_horizon))"

text \<open>
  Line 173, \<^verbatim>\<open>total_savings_over_period = cumulative_savings[-1]\<close>, is the one place of
  the computation that can raise: an \<^verbatim>\<open>IndexError\<close> on the empty list.
\<close>

datatype py_error = IndexError

definition total_savings_over_period :: "'n list \<Rightarrow> py_error + 'n" where
  "total_savings_over_period cumulative_savings =
     (if cumulative_savings = [] then Inl IndexError else Inr (last cumulative_savings))"

subsection \<open>Inputs and outputs of one run of the script\<close>

text \<open>
  The script reads six values from its widgets and computes six results. The records
  package them under the names of the specification, for either kind of number \<open>'n\<close>;
  the source variable of each field:
  \<^item> \<open>transactionFeePercent\<close>: \<^verbatim>\<open>transaction_fee_percent\<close> (slider, 0 to 5);
  \<^item> \<open>trappedFunds\<close>: \<^verbatim>\<open>annual_trapped_funds\<close> (number inputs, at least 0);
  \<^item> \<open>annualLossRatePercent\<close>: \<^verbatim>\<open>annual_loss_rate_percent\<close> (slider, 0 to 25);
  \<^item> \<open>consultingFee\<close>: \<^verbatim>\<open>consulting_fee\<close> (number input, at least 0);
  \<^item> \<open>transactionsPerYear\<close>: \<^verbatim>\<open>transactions_per_year\<close> (number inputs, 1 to 100);
  \<^item> \<open>horizonYears\<close>: \<^verbatim>\<open>selected_years\<close> (slider, 1 to 20).
\<close>

record 'n ScenarioParameters =
  transactionFeePercent :: 'n
  trappedFunds :: "'n py_dict"
  annualLossRatePercent :: 'n
  consultingFee :: 'n
  transactionsPerYear :: "int py_dict"
  horizonYears :: int

record 'n SavingsResult =
  annualTrappedTotal :: 'n
  annualCurrentLoss :: 'n
  annualBlockchainCost :: 'n
  netAnnualSavings :: 'n
  cumulativeSavingsByYear :: "'n list"
  paybackYear :: "int option"

text \<open>The ranges that the widgets of lines 72-130 enforce, on finite floats.\<close>

definition valid_params64 :: "(f64, 'a) ScenarioParameters_scheme \<Rightarrow> bool" where
  "valid_params64 p =
     (is_finite64 (transactionFeePercent p) \<and>
      fle (Finite 0) (transactionFeePercent p) \<and> fle (transactionFeePercent p) (Finite 5) \<and>
      distinct (dict_keys (trappedFunds p)) \<and>
      list_all (\<lambda>amount. is_finite64 amount \<and> fle (Finite 0) amount)
        (dict_values (trappedFunds p)) \<and>
      is_finite64 (annualLossRatePercent p) \<and>
      fle (Finite 0) (annualLossRatePercent p) \<and> fle (annualLossRatePercent p) (Finite 25) \<and>
      is_finite64 (consultingFee p) \<and> fle (Finite 0) (consultingFee p) \<and>
      distinct (dict_keys (transactionsPerYear p)) \<and>
      list_all (\<lambda>n. 1 \<le> n \<and> n \<le> 100) (dict_values (transactionsPerYear p)) \<and>
      1 \<le> horizonYears p \<and> horizonYears p \<le> 20)"

text \<open>
  One run of the script from its inputs to its results: the call of lines 150-156 and
  the payback loop of lines 162-170, which reads the \<^verbatim>\<open>net_annual_savings\<close> that the
  call returned. \<open>annualTrappedTotal\<close> is the local of \<^verbatim>\<open>calculate_savings\<close>.
\<close>

definition project64 :: "(f64, 'a) ScenarioParameters_scheme \<Rightarrow> f64 SavingsResult" where
  "project64 p =
     (case calculate_savings64 (transactionFeePercent p) (trappedFunds p)
             (annualLossRatePercent p) (consultingFee p) (horizonYears p) of
        (cumulative_savings, net_annual_savings, annual_current_loss, annual_blockchain_cost) \<Rightarrow>
          \<lparr> annualTrappedTotal = py_sum64 (dict_values (trappedFunds p)),
            annualCurrentLoss = annual_current_loss,
            annualBlockchainCost = annual_blockchain_cost,
            netAnnualSavings = net_annual_savings,
            cumulativeSavingsByYear = cumulative_savings,
            paybackYear =
              payback_period64 net_annual_savings (consultingFee p) (horizonYears p) \<rparr>)"

subsection \<open>Scenarios\<close>

text \<open>
  The preset "Average Estimate" of \<^verbatim>\<open>default_params\<close> (lines 37-50) with the defaults
  of the consulting fee (line 110) and of the horizon (line 130). All its literals are
  binary64 numbers.
\<close>

definition default_trapped_funds64 :: "f64 py_dict" where
  "default_trapped_funds64 =
     [(''Bangladesh'', Finite 1000000), (''Pakistan'', Finite 500000), (''Others'', Finite 300000)]"

definition default_transactions :: "int py_dict" where
  "default_transactions = [(''Bangladesh'', 12), (''Pakistan'', 12), (''Others'', 12)]"

definition average_estimate64 :: "f64 ScenarioParameters" where
  "average_estimate64 =
     \<lparr> transactionFeePercent = Finite (9 / 4), trappedFunds = default_trapped_funds64,
       annualLossRatePercent = Finite 15, consultingFee = Finite 250000,
       transactionsPerYear = default_transactions, horizonYears = 10 \<rparr>"

text \<open>
  Six more scenarios inside the widgets' ranges. In the first the new channel costs
  more than the current losses: the loss-rate slider at \<open>0\<close>, the fee slider at \<open>5\<close>, two
  years. In the second the loss rate is \<open>3.5\<close> percent and the products round. In the
  third the funds are \<open>10\<close>, the loss rate is \<open>1\<close> percent and the consulting fee is
  \<open>1,000,000\<close>. In the fourth all funds are \<open>0\<close> and the consulting fee is the smallest
  positive binary64 number, \<open>2 ^ - 1074\<close> (about \<open>5e-324\<close>). In the fifth the loss rate is
  \<open>14.5\<close> percent and the consulting fee is \<open>261e9\<close>. In the sixth the funds are \<open>1\<close>, the
  fee is \<open>5\<close> percent and the consulting fee is \<open>1e18\<close>, two years.
\<close>

definition loss_making_scenario64 :: "f64 ScenarioParameters" where
  "loss_making_scenario64 =
     \<lparr> transactionFeePercent = Finite 5, trappedFunds = default_trapped_funds64,
       annualLossRatePercent = Finite 0, consultingFee = Finite 250000,
       transactionsPerYear = default_transactions, horizonYears = 2 \<rparr>"

definition rounding_scenario64 :: "f64 ScenarioParameters" where
  "rounding_scenario64 =
     \<lparr> transactionFeePercent = Finite 0, trappedFunds = default_trapped_funds64,
       annualLossRatePercent = Finite (7 / 2), consultingFee = Finite 250000,
       transactionsPerYear = default_transactions, horizonYears = 3 \<rparr>"

definition small_savings_scenario64 :: "f64 ScenarioParameters" where
  "small_savings_scenario64 =
     \<lparr> transactionFeePercent = Finite 0,
       trappedFunds = [(''Bangladesh'', Finite 10), (''Pakistan'', Finite 0), (''Others'', Finite 0)],
       annualLossRatePercent = Finite 1, consultingFee = Finite 1000000,
       transactionsPerYear = default_transactions, horizonYears = 10 \<rparr>"

definition smallest_f64 :: rat where
  "smallest_f64 = 1 / 2 ^ 1074"

definition underflow_scenario64 :: "f64 ScenarioParameters" where
  "underflow_scenario64 =
     \<lparr> transactionFeePercent = Finite 0,
       trappedFunds = [(''Bangladesh'', Finite 0), (''Pakistan'', Finite 0), (''Others'', Finite 0)],
       annualLossRatePercent = Finite 0, consultingFee = Finite smallest_f64,
       transactionsPerYear = default_transactions, horizonYears = 10 \<rparr>"

definition rounded_savings_scenario64 :: "f64 ScenarioParameters" where
  "rounded_savings_scenario64 =
     \<lparr> transactionFeePercent = Finite 0, trappedFunds = default_trapped_funds64,
       annualLossRatePercent = Finite (29 / 2), consultingFee = Finite 261000000000,
       transactionsPerYear = default_transactions, horizonYears = 10 \<rparr>"

definition absorbing_scenario64 :: "f64 ScenarioParameters" where
  "absorbing_scenario64 =
     \<lparr> transactionFeePercent = Finite 5,
       trappedFunds = [(''Bangladesh'', Finite 1), (''Pakistan'', Finite 0), (''Others'', Finite 0)],
       annualLossRatePercent = Finite 0, consultingFee = Finite 1000000000000000000,
       transactionsPerYear = default_transactions, horizonYears = 2 \<rparr>"

subsection \<open>The script in exact arithmetic\<close>

text \<open>
  The same lines of the script with rational numbers and exact \<open>+\<close>, \<open>-\<close>, \<open>*\<close>, \<open>/\<close>:
  no rounding, no overflow, no NaN.
\<close>

definition py_sum :: "rat list \<Rightarrow> rat" where
  "py_sum xs = foldl (\<lambda>acc x. acc + x) 0 xs"

fun savings_loop :: "rat \<Rightarrow> rat \<Rightarrow> int list \<Rightarrow> rat \<Rightarrow> rat list \<Rightarrow> rat list" where
  "savings_loop net_annual_savings consulting_fee [] total_savings cumulative_savings =
     cumulative_savings"
| "savings_loop net_annual_savings consulting_fee (year # years) total_savings cumulative_savings =
     (let total_savings = total_savings + net_annual_savings;
          total_savings = (if year = 1 then total_savings - consulting_fee else total_savings)
      in savings_loop net_annual_savings consulting_fee years total_savings
           (cumulative_savings @ [total_savings]))"

definition calculate_savings ::
  "rat \<Rightarrow> rat py_dict \<Rightarrow> rat \<Rightarrow> rat \<Rightarrow> int \<Rightarrow> rat list \<times> rat \<times> rat \<times> rat" where
  "calculate_savings transaction_fee trapped_funds loss_rate consulting_fee years =
     (let annual_trapped_total = py_sum (dict_values trapped_funds);
          annual_current_loss = annual_trapped_total * (loss_rate / 100);
          annual_blockchain_cost = annual_trapped_total * (transaction_fee / 100);
          net_annual_savings = annual_current_loss - annual_blockchain_cost;
          cumulative_savings = savings_loop net_annual_savings consulting_fee [1..years] 0 []
      in (cumulative_savings, net_annual_savings, annual_current_loss, annual_blockchain_cost))"

fun payback_loop :: "rat \<Rightarrow> rat \<Rightarrow> int list \<Rightarrow> int option \<Rightarrow> rat \<Rightarrow> int option" where
  "payback_loop net_annual_savings consulting_fee [] payback_year cumulative = payback_year"
| "payback_loop net_annual_savings consulting_fee (year # years) payback_year cumulative =
     (let cumulative =
            (if year = 1 then cumulative + (net_annual_savings - consulting_fee / 1000000)
             else cumulative + net_annual_savings);
          payback_year =
            (if payback_year = None \<and> 0 \<le> cumulative then Some year else payback_year)
      in payback_loop net_annual_savings consulting_fee years payback_year cumulative)"

definition payback_period :: "rat \<Rightarrow> rat \<Rightarrow> int \<Rightarrow> int option" where
  "payback_period net_annual_savings consulting_fee selected_years =
     payback_loop net_annual_savings consulting_fee [1..selected_years] None 0"

definition valid_params :: "(rat, 'a) ScenarioParameters_scheme \<Rightarrow> bool" where
  "valid_params p =
     (0 \<le> transactionFeePercent p \<and> transactionFeePercent p \<le> 5 \<and>
      distinct (dict_keys (trappedFunds p)) \<and>
      list_all (\<lambda>amount. 0 \<le> amount) (dict_values (trappedFunds p)) \<and>
      0 \<le> annualLossRatePercent p \<and> annualLossRatePercent p \<le> 25 \<and>
      0 \<le> consultingFee p \<and>
      distinct (dict_keys (transactionsPerYear p)) \<and>
      list_all (\<lambda>n. 1 \<le> n \<and> n \<le> 100) (dict_values (transactionsPerYear p)) \<and>
      1 \<le> horizonYears p \<and> horizonYears p \<le> 20)"

definition project :: "(rat, 'a) ScenarioParameters_scheme \<Rightarrow> rat SavingsResult" where
  "project p =
     (case calculate_savings (transactionFeePercent p) (trappedFunds p)
             (annualLossRatePercent p) (consultingFee p) (horizonYears p) of
        (cumulative_savings, net_annual_savings, annual_current_loss, annual_blockchain_cost) \<Rightarrow>
          \<lparr> annualTrappedTotal = py_sum (dict_values (trappedFunds p)),
            annualCurrentLoss = annual_current_loss,
            annualBlockchainCost = annual_blockchain_cost,
            netAnnualSavings = net_annual_savings,
            cumulativeSavingsByYear = cumulative_savings,
            paybackYear = payback_period net_annual_savings (consultingFee p) (horizonYears p) \<rparr>)"

definition default_trapped_funds :: "rat py_dict" where
  "default_trapped_funds =
     [(''Bangladesh'', 1000000), (''Pakistan'', 500000), (''Others'', 300000)]"

definition average_estimate :: "rat ScenarioParameters" where
  "average_estimate =
     \<lparr> transactionFeePercent = 9 / 4, trappedFunds = default_trapped_funds,
       annualLossRatePercent = 15, consultingFee = 250000,
       transactionsPerYear = default_transactions, horizonYears = 10 \<rparr>"

text \<open>The preset "Average Estimate" with every amount of trapped funds set to \<open>0\<close>.\<close>

definition zero_funds_scenario :: "rat ScenarioParameters" where
  "zero_funds_scenario =
     \<lparr> transactionFeePercent = 9 / 4,
       trappedFunds = [(''Bangladesh'', 0), (''Pakistan'', 0), (''Others'', 0)],
       annualLossRatePercent = 15, consultingFee = 250000,
       transactionsPerYear = default_transactions, horizonYears = 10 \<rparr>"

subsection \<open>The payback year in the words of the specification\<close>

text \<open>
  The specification describes the payback year (section 4.1, step 4) as: iterate the years
  \<open>1..horizonYears\<close>, accumulate \<open>netAnnualSavings\<close> each year, but in year 1 subtract
  \<open>consultingFee / 1,000,000\<close>; return the first year where the running sum is at least
  \<open>0\<close>, else report "not within horizon". These definitions follow that description,
  not the source; they are what the loop of the source is compared with. The running sum
  starts at \<open>0\<close>; every year adds the net annual savings, and year 1 then subtracts the
  scaled fee.
\<close>

definition spec_step64 :: "f64 \<Rightarrow> f64 \<Rightarrow> f64 \<Rightarrow> int \<Rightarrow> f64" where
  "spec_step64 nas fee s y =
     (if y = 1 then fsub (fadd s nas) (fdiv_int fee 1000000) else fadd s nas)"

definition spec_running_sum64 :: "f64 \<Rightarrow> f64 \<Rightarrow> int \<Rightarrow> f64" where
  "spec_running_sum64 nas fee y = foldl (spec_step64 nas fee) (Finite 0) [1..y]"

definition spec_payback_year64 :: "f64 \<Rightarrow> f64 \<Rightarrow> int \<Rightarrow> int option" where
  "spec_payback_year64 nas fee horizon =
     find (\<lambda>y. fle (Finite 0) (spec_running_sum64 nas fee y)) [1..horizon]"

definition spec_payback_report64 :: "f64 \<Rightarrow> f64 \<Rightarrow> int \<Rightarrow> payback_text" where
  "spec_payback_report64 nas fee horizon =
     (case spec_payback_year64 nas fee horizon of
        None \<Rightarrow> Not_within_horizon
      | Some y \<Rightarrow> Year y)"

subsection \<open>Two auxiliary functions for the proofs\<close>

text \<open>
  \<open>add_chain a t n\<close> lists the \<open>n\<close> values that follow \<open>t\<close> when \<open>a\<close> is added again and
  again; \<open>payback_step\<close> is one pass of the payback loop on its running sum.
\<close>

fun add_chain :: "f64 \<Rightarrow> f64 \<Rightarrow> nat \<Rightarrow> f64 list" where
  "add_chain a t 0 = []"
| "add_chain a t (Suc n) = fadd t a # add_chain a (fadd t a) n"

definition payback_step :: "f64 \<Rightarrow> f64 \<Rightarrow> f64 \<Rightarrow> int \<Rightarrow> f64" where
  "payback_step nas fee c year =
     (if year = 1 then fadd c (fsub nas (fdiv_int fee 1000000)) else fadd c nas)"

section \<open>Properties of the binary64 arithmetic\<close>

subsection \<open>Powers of two\<close>

lemma p2_pos [simp]: "0 < (2::rat) powi k"
  by simp

lemma p2_add: "(2::rat) powi (a + b) = 2 powi a * 2 powi b"
  by (simp add: power_int_add)

lemma p2_diff: "(2::rat) powi (a - b) = 2 powi a / 2 powi b"
  by (simp add: power_int_diff)

lemma p2_mono: "a \<le> b \<Longrightarrow> (2::rat) powi a \<le> 2 powi b"
  by (rule power_int_increasing) simp_all

lemma p2_strict_mono: "a < b \<Longrightarrow> (2::rat) powi a < 2 powi b"
  by (rule power_int_strict_increasing) simp_all

lemma p2_less_iff: "(2::rat) powi a < 2 powi b \<longleftrightarrow> a < b"
  by (metis p2_mono p2_strict_mono not_less order.strict_iff_order linorder_not_le)

lemma p2_minus: "(2::rat) powi (- k) = 1 / 2 powi k"
  by (simp add: power_int_minus inverse_eq_divide)

lemma p2_Suc: "(2::rat) powi (a + 1) = 2 * 2 powi a"
  by (simp add: p2_add)

lemma p2_of_int: "0 \<le> k \<Longrightarrow> (2::rat) powi k = of_int (2 ^ nat k)"
  by (simp add: power_int_def)

subsection \<open>Rounding to the nearest integer, ties to even\<close>

lemma round_half_even_of_int [simp]: "round_half_even (of_int n) = n"
  by (simp add: round_half_even_def)

lemma round_half_even_0 [simp]: "round_half_even 0 = 0"
  by (simp add: round_half_even_def)

lemma round_half_even_cases:
  "round_half_even x = \<lfloor>x\<rfloor> \<or> round_half_even x = \<lfloor>x\<rfloor> + 1"
  by (simp add: round_half_even_def Let_def)

lemma round_half_even_mono: "x \<le> y \<Longrightarrow> round_half_even x \<le> round_half_even y"
proof -
  assume xy: "x \<le> y"
  then have f: "\<lfloor>x\<rfloor> \<le> \<lfloor>y\<rfloor>" by (rule floor_mono)
  show ?thesis
  proof (cases "\<lfloor>x\<rfloor> = \<lfloor>y\<rfloor>")
    case True
    with xy show ?thesis by (auto simp: round_half_even_def Let_def)
  next
    case False
    with f have "\<lfloor>x\<rfloor> + 1 \<le> \<lfloor>y\<rfloor>" by simp
    moreover have "round_half_even x \<le> \<lfloor>x\<rfloor> + 1"
      using round_half_even_cases [of x] by auto
    moreover have "\<lfloor>y\<rfloor> \<le> round_half_even y"
      using round_half_even_cases [of y] by auto
    ultimately show ?thesis by simp
  qed
qed

lemma round_half_even_minus: "round_half_even (- x) = - round_half_even x"
proof (cases "x = of_int \<lfloor>x\<rfloor>")
  case True
  then obtain n where "x = of_int n" ..
  then have "- x = of_int (- n)" by simp
  then show ?thesis using \<open>x = of_int n\<close> by (simp only: round_half_even_of_int)
next
  case False
  then have fl: "\<lfloor>- x\<rfloor> = - \<lfloor>x\<rfloor> - 1"
    by (simp add: floor_minus ceiling_altdef)
  show ?thesis
    unfolding round_half_even_def Let_def fl by (auto simp: algebra_simps)
qed

lemma round_half_even_eqI:
  assumes "\<bar>x - of_int n\<bar> < 1 / 2 \<or> (\<bar>x - of_int n\<bar> = 1 / 2 \<and> even n)"
  shows "round_half_even x = n"
proof -
  have "\<lfloor>x\<rfloor> = n \<or> \<lfloor>x\<rfloor> = n - 1"
    using assms by (auto simp: floor_eq_iff abs_if split: if_splits)
  then show ?thesis
  proof
    assume f: "\<lfloor>x\<rfloor> = n"
    then have "0 \<le> x - of_int n" by (metis diff_ge_0_iff_ge of_int_floor_le)
    with assms show ?thesis
      unfolding round_half_even_def Let_def f by (auto simp: abs_if split: if_splits)
  next
    assume f: "\<lfloor>x\<rfloor> = n - 1"
    then have "x - of_int n < 0" 
      by (metis diff_less_0_iff_less floor_less_iff less_add_one diff_add_cancel)
    with assms show ?thesis
      unfolding round_half_even_def Let_def f by (auto simp: abs_if algebra_simps split: if_splits)
  qed
qed

subsection \<open>The binade of a positive number\<close>

lemma bitlen_pos: "0 < m \<Longrightarrow> 1 \<le> bitlen m"
  using bitlen_eq_zero_iff [of m] bitlen_nonneg [of m] by linarith

lemma binade_ge_one:
  assumes "1 \<le> q"
  shows "2 powi binade q \<le> q" and "q < 2 powi (binade q + 1)"
proof -
  let ?m = "\<lfloor>q\<rfloor>"
  have m: "0 < ?m" using assms by simp
  have B: "1 \<le> bitlen ?m" using m by (rule bitlen_pos)
  have e: "binade q = bitlen ?m - 1" using assms by (simp add: binade_def)
  from bitlen_bounds [OF m]
  have lo: "2 ^ nat (bitlen ?m - 1) \<le> ?m" and hi: "?m < 2 ^ nat (bitlen ?m)" by simp_all
  have "2 powi binade q = rat_of_int (2 ^ nat (bitlen ?m - 1))"
    unfolding e using B by (intro p2_of_int) simp
  also have "\<dots> \<le> rat_of_int ?m" using lo by (simp only: of_int_le_iff)
  also have "\<dots> \<le> q" by simp
  finally show "2 powi binade q \<le> q" .
  have "q < rat_of_int (?m + 1)" using floor_correct [of q] by simp
  also have "\<dots> \<le> rat_of_int (2 ^ nat (bitlen ?m))"
    using hi by (simp only: of_int_le_iff)
  also have "\<dots> = 2 powi (binade q + 1)"
    unfolding e using B by (simp add: p2_of_int)
  finally show "q < 2 powi (binade q + 1)" .
qed

lemma binade_less_one:
  assumes "0 < q" and "q < 1"
  shows "2 powi binade q \<le> q" and "q < 2 powi (binade q + 1)"
proof -
  let ?m = "\<lceil>1 / q\<rceil> - 1"
  have inv: "1 < 1 / q" using assms by simp
  then have "1 < \<lceil>1 / q\<rceil>" by (simp add: less_ceiling_iff)
  then have m: "0 < ?m" by simp
  have B: "1 \<le> bitlen ?m" using m by (rule bitlen_pos)
  have e: "binade q = - bitlen ?m" using assms by (simp add: binade_def)
  from bitlen_bounds [OF m]
  have lo: "2 ^ nat (bitlen ?m - 1) \<le> ?m" and hi: "?m < 2 ^ nat (bitlen ?m)" by simp_all
  have below: "rat_of_int ?m < 1 / q"
    by (metis ceiling_correct of_int_diff of_int_1)
  have above: "1 / q \<le> rat_of_int ?m + 1"
    using le_of_int_ceiling [of "1 / q"] by simp
  have "1 / q \<le> rat_of_int (?m + 1)" using above by simp
  also have "\<dots> \<le> rat_of_int (2 ^ nat (bitlen ?m))"
    using hi by (simp only: of_int_le_iff)
  also have "\<dots> = 2 powi bitlen ?m" using B by (simp add: p2_of_int)
  finally have "1 / q \<le> 2 powi bitlen ?m" .
  then have "1 \<le> 2 powi bitlen ?m * q" using assms(1) by (simp add: pos_divide_le_eq)
  then have "1 / 2 powi bitlen ?m \<le> q" by (simp add: pos_divide_le_eq mult.commute)
  then show "2 powi binade q \<le> q"
    unfolding e by (simp add: power_int_minus inverse_eq_divide)
  have "2 powi (bitlen ?m - 1) = rat_of_int (2 ^ nat (bitlen ?m - 1))"
    using B by (intro p2_of_int) simp
  also have "\<dots> \<le> rat_of_int ?m" using lo by (simp only: of_int_le_iff)
  also have "\<dots> < 1 / q" by (rule below)
  finally have "2 powi (bitlen ?m - 1) < 1 / q" .
  then have "2 powi (bitlen ?m - 1) * q < 1" using assms(1) by (simp add: pos_less_divide_eq)
  then have "q < 1 / 2 powi (bitlen ?m - 1)" by (simp add: pos_less_divide_eq mult.commute)
  also have "\<dots> = 2 powi (- (bitlen ?m - 1))"
    by (rule p2_minus [symmetric])
  finally show "q < 2 powi (binade q + 1)" unfolding e by simp
qed

lemma binade_bounds:
  assumes "0 < q"
  shows "2 powi binade q \<le> q" and "q < 2 powi (binade q + 1)"
  using assms binade_ge_one [of q] binade_less_one [of q] by (cases "1 \<le> q"; simp)+

lemma binade_unique:
  assumes "2 powi e \<le> q" and "q < 2 powi (e + 1)"
  shows "binade q = e"
proof -
  have q: "0 < q" using assms(1) p2_pos [of e] by linarith
  note b = binade_bounds [OF q]
  have "(2::rat) powi e < 2 powi (binade q + 1)" using assms(1) b(2) by linarith
  then have "e < binade q + 1" by (simp only: p2_less_iff)
  moreover have "(2::rat) powi binade q < 2 powi (e + 1)" using assms(2) b(1) by linarith
  then have "binade q < e + 1" by (simp only: p2_less_iff)
  ultimately show ?thesis by simp
qed

lemma binade_mono:
  assumes "0 < p" and "p \<le> q"
  shows "binade p \<le> binade q"
proof -
  have q: "0 < q" using assms by linarith
  have "2 powi binade p \<le> p" using assms(1) by (rule binade_bounds)
  also have "p \<le> q" by fact
  also have "q < 2 powi (binade q + 1)" using q by (rule binade_bounds)
  finally have "binade p < binade q + 1" by (simp only: p2_less_iff)
  then show ?thesis by simp
qed

subsection \<open>The exponent level and the quantum\<close>

lemma level_ge: "- 1022 \<le> level q"
  by (simp add: level_def)

lemma level_minus [simp]: "level (- q) = level q"
  by (simp add: level_def)

lemma quantum_minus [simp]: "quantum (- q) = quantum q"
  by (simp add: quantum_def)

lemma quantum_pos [simp]: "0 < quantum q"
  by (simp add: quantum_def)

lemma quantum_nonneg [simp]: "0 \<le> quantum q"
  by (simp add: quantum_def)

lemma quantum_nonzero [simp]: "quantum q \<noteq> 0"
  by (simp add: quantum_def)

lemma level_upper:
  assumes "q \<noteq> 0"
  shows "\<bar>q\<bar> < 2 powi (level q + 1)"
proof -
  have "0 < \<bar>q\<bar>" using assms by simp
  then have "\<bar>q\<bar> < 2 powi (binade \<bar>q\<bar> + 1)" by (rule binade_bounds)
  also have "\<dots> \<le> 2 powi (level q + 1)" by (rule p2_mono) (simp add: level_def)
  finally show ?thesis .
qed

lemma level_lower:
  assumes "q \<noteq> 0" and "- 1022 < level q"
  shows "2 powi level q \<le> \<bar>q\<bar>"
proof -
  have "level q = binade \<bar>q\<bar>" using assms(2) by (simp add: level_def max_def split: if_splits)
  moreover have "0 < \<bar>q\<bar>" using assms(1) by simp
  ultimately show ?thesis by (simp add: binade_bounds)
qed

lemma level_eqI:
  assumes "- 1022 \<le> e" and "\<bar>q\<bar> < 2 powi (e + 1)" and "e = - 1022 \<or> 2 powi e \<le> \<bar>q\<bar>"
    and "q \<noteq> 0"
  shows "level q = e"
proof (cases "2 powi e \<le> \<bar>q\<bar>")
  case True
  then have "binade \<bar>q\<bar> = e" using assms(2) by (rule binade_unique)
  then show ?thesis using assms(1) by (simp add: level_def)
next
  case False
  with assms(3) have e: "e = - 1022" by simp
  have "0 < \<bar>q\<bar>" using assms(4) by simp
  then have "2 powi binade \<bar>q\<bar> \<le> \<bar>q\<bar>" by (rule binade_bounds)
  also have "\<bar>q\<bar> < 2 powi e" using False by simp
  finally have "binade \<bar>q\<bar> < e" by (simp only: p2_less_iff)
  then show ?thesis using e by (simp add: level_def)
qed

lemma level_mono:
  assumes "p \<noteq> 0" and "\<bar>p\<bar> \<le> \<bar>q\<bar>"
  shows "level p \<le> level q"
proof -
  have "0 < \<bar>p\<bar>" using assms(1) by simp
  then have "binade \<bar>p\<bar> \<le> binade \<bar>q\<bar>" using assms(2) by (rule binade_mono)
  then show ?thesis by (simp add: level_def max_def)
qed

subsection \<open>Rounding with an unbounded exponent\<close>

lemma nearest_0 [simp]: "nearest 0 = 0"
  by (simp add: nearest_def)

lemma nearest_minus: "nearest (- q) = - nearest q"
  by (simp add: nearest_def round_half_even_minus)

lemma nearest_same_level:
  assumes "level p = level q" and "p \<le> q"
  shows "nearest p \<le> nearest q"
proof -
  have u: "quantum p = quantum q" using assms(1) by (simp add: quantum_def)
  have "p / quantum q \<le> q / quantum q" using assms(2) by (rule divide_right_mono) simp
  then have "round_half_even (p / quantum q) \<le> round_half_even (q / quantum q)"
    by (rule round_half_even_mono)
  then have "rat_of_int (round_half_even (p / quantum q)) \<le>
             rat_of_int (round_half_even (q / quantum q))"
    by simp
  then show ?thesis unfolding nearest_def u by (simp add: mult_right_mono)
qed

lemma quantum_times: "quantum q * 2 ^ 53 = 2 powi (level q + 1)"
proof -
  have "(2::rat) powi (level q + 1) = 2 powi ((level q - 52) + 53)"
    by (rule arg_cong [where f = "power_int 2"]) simp
  also have "\<dots> = 2 powi (level q - 52) * 2 powi 53" by (rule p2_add)
  finally show ?thesis by (simp add: quantum_def)
qed

lemma quantum_times': "quantum q * 2 ^ 52 = 2 powi level q"
proof -
  have "(2::rat) powi level q = 2 powi ((level q - 52) + 52)"
    by (rule arg_cong [where f = "power_int 2"]) simp
  also have "\<dots> = 2 powi (level q - 52) * 2 powi 52" by (rule p2_add)
  finally show ?thesis by (simp add: quantum_def)
qed

lemma nearest_nonneg:
  assumes "0 \<le> q"
  shows "0 \<le> nearest q"
proof -
  have "0 \<le> q / quantum q" using assms by (rule divide_nonneg_nonneg) simp
  then have "round_half_even 0 \<le> round_half_even (q / quantum q)"
    by (rule round_half_even_mono)
  then have "0 \<le> round_half_even (q / quantum q)" by simp
  then show ?thesis by (simp add: nearest_def)
qed

lemma nearest_upper:
  assumes "0 < q"
  shows "nearest q \<le> 2 powi (level q + 1)"
proof -
  have "q < 2 powi (level q + 1)" using level_upper [of q] assms by simp
  then have "q / quantum q \<le> 2 powi (level q + 1) / quantum q"
    by (intro divide_right_mono) simp_all
  also have "\<dots> = rat_of_int (2 ^ 53)"
    by (simp add: quantum_times [symmetric])
  finally have "round_half_even (q / quantum q) \<le> round_half_even (rat_of_int (2 ^ 53))"
    by (rule round_half_even_mono)
  then have "rat_of_int (round_half_even (q / quantum q)) \<le> rat_of_int (2 ^ 53)"
    by (simp only: round_half_even_of_int of_int_le_iff)
  then have "nearest q \<le> rat_of_int (2 ^ 53) * quantum q"
    unfolding nearest_def by (simp add: mult_right_mono)
  also have "\<dots> = 2 powi (level q + 1)"
    by (simp add: quantum_times [symmetric] mult.commute)
  finally show ?thesis .
qed

lemma nearest_lower:
  assumes "0 < q" and "- 1022 < level q"
  shows "2 powi level q \<le> nearest q"
proof -
  have "2 powi level q \<le> q" using level_lower [of q] assms by simp
  then have "2 powi level q / quantum q \<le> q / quantum q"
    by (intro divide_right_mono) simp_all
  moreover have "2 powi level q / quantum q = rat_of_int (2 ^ 52)"
    by (simp add: quantum_times' [symmetric])
  ultimately have "round_half_even (rat_of_int (2 ^ 52)) \<le> round_half_even (q / quantum q)"
    by (intro round_half_even_mono) simp
  then have "rat_of_int (2 ^ 52) \<le> rat_of_int (round_half_even (q / quantum q))"
    by (simp only: round_half_even_of_int of_int_le_iff)
  then have "rat_of_int (2 ^ 52) * quantum q \<le> nearest q"
    unfolding nearest_def by (simp add: mult_right_mono)
  moreover have "rat_of_int (2 ^ 52) * quantum q = 2 powi level q"
    by (simp add: quantum_times' [symmetric] mult.commute)
  ultimately show ?thesis by simp
qed

lemma nearest_mono_pos:
  assumes "0 < p" and "p \<le> q"
  shows "nearest p \<le> nearest q"
proof -
  have q: "0 < q" using assms by linarith
  have "level p \<le> level q" using assms by (intro level_mono) simp_all
  then consider "level p = level q" | "level p < level q" by linarith
  then show ?thesis
  proof cases
    case 1
    then show ?thesis using assms(2) by (rule nearest_same_level)
  next
    case 2
    have "nearest p \<le> 2 powi (level p + 1)" using assms(1) by (rule nearest_upper)
    also have "\<dots> \<le> 2 powi level q" using 2 by (intro p2_mono) simp
    also have "\<dots> \<le> nearest q"
      using q 2 level_ge [of p] by (intro nearest_lower) simp_all
    finally show ?thesis .
  qed
qed

lemma nearest_mono:
  assumes "p \<le> q"
  shows "nearest p \<le> nearest q"
proof -
  consider "0 < p" | "q < 0" | "p \<le> 0" and "0 \<le> q" by linarith
  then show ?thesis
  proof cases
    case 1
    then show ?thesis using assms by (rule nearest_mono_pos)
  next
    case 2
    then have "0 < - q" and "- q \<le> - p" using assms by simp_all
    then have "nearest (- q) \<le> nearest (- p)" by (rule nearest_mono_pos)
    then show ?thesis by (simp add: nearest_minus)
  next
    case 3
    then have "0 \<le> nearest (- p)" and "0 \<le> nearest q" by (simp_all add: nearest_nonneg)
    then show ?thesis by (simp add: nearest_minus)
  qed
qed

subsection \<open>Representable numbers\<close>

lemma quotient_is_int:
  assumes "j \<le> k"
  shows "rat_of_int m * 2 powi k / 2 powi j = rat_of_int (m * 2 ^ nat (k - j))"
proof -
  have "rat_of_int m * 2 powi k / 2 powi j = rat_of_int m * 2 powi (k - j)"
    by (simp add: p2_diff)
  also have "2 powi (k - j) = rat_of_int (2 ^ nat (k - j))"
    using assms by (intro p2_of_int) simp
  finally show ?thesis by simp
qed

lemma nearest_integral:
  assumes "q / quantum q = rat_of_int n"
  shows "nearest q = q"
proof -
  have "nearest q = rat_of_int n * quantum q"
    unfolding nearest_def assms by simp
  also have "\<dots> = q / quantum q * quantum q" by (simp only: assms)
  finally show ?thesis by simp
qed

lemma nearest_fixed:
  assumes k: "- 1074 \<le> k" and m: "\<bar>m\<bar> \<le> 2 ^ 53"
  shows "nearest (rat_of_int m * 2 powi k) = rat_of_int m * 2 powi k"
proof (cases "m = 0")
  case True
  then show ?thesis by simp
next
  case False
  let ?q = "rat_of_int m * 2 powi k"
  have q0: "?q \<noteq> 0" using False by simp
  have absq: "\<bar>?q\<bar> = rat_of_int \<bar>m\<bar> * 2 powi k" by (simp add: abs_mult)
  show ?thesis
  proof (cases "\<bar>m\<bar> = 2 ^ 53")
    case True
    have "\<bar>?q\<bar> = 2 powi 53 * 2 powi k" unfolding absq True by simp
    also have "\<dots> = 2 powi (k + 53)" by (simp add: p2_add mult.commute)
    finally have a: "\<bar>?q\<bar> = 2 powi (k + 53)" .
    have "level ?q = k + 53"
    proof (rule level_eqI)
      show "- 1022 \<le> k + 53" using k by simp
      show "\<bar>?q\<bar> < 2 powi (k + 53 + 1)" unfolding a by (rule p2_strict_mono) simp
      show "k + 53 = - 1022 \<or> 2 powi (k + 53) \<le> \<bar>?q\<bar>" unfolding a by simp
      show "?q \<noteq> 0" by (rule q0)
    qed
    then have u: "quantum ?q = 2 powi (k + 1)" by (simp add: quantum_def add.commute)
    have ev: "even m" using True by (metis abs_minus_cancel abs_of_pos dvd_minus_iff
          even_numeral even_power zero_less_numeral abs_if)
    have "?q / quantum ?q = rat_of_int m * (2 powi k / 2 powi (k + 1))" unfolding u by simp
    also have "2 powi k / 2 powi (k + 1) = (1::rat) / 2" by (simp add: p2_Suc)
    also have "rat_of_int m * (1 / 2) = rat_of_int (m div 2)"
      using ev by (auto elim!: evenE)
    finally show ?thesis by (rule nearest_integral)
  next
    case False
    with m have "\<bar>m\<bar> < 2 ^ 53" by simp
    then have "rat_of_int \<bar>m\<bar> < rat_of_int (2 ^ 53)" by (simp only: of_int_less_iff)
    then have "\<bar>?q\<bar> < rat_of_int (2 ^ 53) * 2 powi k"
      unfolding absq by (intro mult_strict_right_mono) simp_all
    also have "\<dots> = 2 powi 53 * 2 powi k" by simp
    also have "\<dots> = 2 powi (k + 53)" by (simp add: p2_add mult.commute)
    finally have up: "\<bar>?q\<bar> < 2 powi (k + 53)" .
    have "0 < \<bar>?q\<bar>" using q0 by simp
    then have "2 powi binade \<bar>?q\<bar> \<le> \<bar>?q\<bar>" by (rule binade_bounds)
    then have "(2::rat) powi binade \<bar>?q\<bar> < 2 powi (k + 53)" using up by linarith
    then have "binade \<bar>?q\<bar> < k + 53" by (simp only: p2_less_iff)
    then have "level ?q - 52 \<le> k" using k by (simp add: level_def)
    then have "?q / 2 powi (level ?q - 52) = rat_of_int (m * 2 ^ nat (k - (level ?q - 52)))"
      by (rule quotient_is_int)
    then have "?q / quantum ?q = rat_of_int (m * 2 ^ nat (k - (level ?q - 52)))"
      by (simp only: quantum_def)
    then show ?thesis by (rule nearest_integral)
  qed
qed

lemma round_half_even_bound: "\<bar>round_half_even (q / quantum q)\<bar> \<le> 2 ^ 53"
proof (cases "q = 0")
  case True
  then show ?thesis by simp
next
  case False
  then have "\<bar>q\<bar> < 2 powi (level q + 1)" by (rule level_upper)
  then have "\<bar>q\<bar> < quantum q * 2 ^ 53" by (simp only: quantum_times)
  then have lo: "rat_of_int (- (2 ^ 53)) \<le> q / quantum q"
    and hi: "q / quantum q \<le> rat_of_int (2 ^ 53)"
    by (simp_all add: pos_divide_le_eq pos_le_divide_eq abs_less_iff mult.commute)
  from round_half_even_mono [OF lo] round_half_even_mono [OF hi]
  show ?thesis by (simp only: round_half_even_of_int abs_le_iff) simp
qed

lemma nearest_idem: "nearest (nearest q) = nearest q"
  unfolding nearest_def [of q] quantum_def
  by (rule nearest_fixed) (use level_ge [of q] round_half_even_bound [of q] in \<open>simp_all add: quantum_def\<close>)

subsection \<open>Rounding to binary64\<close>

lemma round64_Finite_iff:
  "round64 q = Finite r \<longleftrightarrow> r = nearest q \<and> - (2 powi 1024) < r \<and> r < 2 powi 1024"
  by (auto simp: round64_def Let_def)

lemma round64_PInf_iff: "round64 q = PInf \<longleftrightarrow> 2 powi 1024 \<le> nearest q"
  by (auto simp: round64_def Let_def)

lemma round64_NInf_iff: "round64 q = NInf \<longleftrightarrow> nearest q \<le> - (2 powi 1024)"
proof -
  define B :: rat where "B = 2 powi 1024"
  have "0 < B" by (simp add: B_def)
  then show ?thesis unfolding round64_def Let_def B_def [symmetric] by auto
qed

lemma round64_not_NaN [simp]: "round64 q \<noteq> NaN"
  by (simp add: round64_def Let_def)

lemma round64_0 [simp]: "round64 0 = Finite 0"
  by (simp add: round64_Finite_iff)

lemma round64_idem: "round64 q = Finite r \<Longrightarrow> round64 r = Finite r"
  by (simp add: round64_Finite_iff nearest_idem)

lemma is_f64_round64 [simp]: "is_f64 (round64 q)"
  by (cases "round64 q") (simp_all add: is_f64_def round64_idem)

lemma is_f64_Finite: "is_f64 (Finite q) \<longleftrightarrow> round64 q = Finite q"
  by (simp add: is_f64_def)

lemma is_f64_specials [simp]: "is_f64 PInf" "is_f64 NInf" "is_f64 NaN"
  by (simp_all add: is_f64_def)

lemma round64_fixed:
  assumes "- 1074 \<le> k" and "\<bar>m\<bar> \<le> 2 ^ 53" and "\<bar>rat_of_int m * 2 powi k\<bar> < 2 powi 1024"
  shows "round64 (rat_of_int m * 2 powi k) = Finite (rat_of_int m * 2 powi k)"
  using assms(3) by (simp only: round64_Finite_iff nearest_fixed [OF assms(1,2)] abs_less_iff) simp

lemma round64_of_int:
  assumes "\<bar>n\<bar> \<le> 2 ^ 53"
  shows "round64 (rat_of_int n) = Finite (rat_of_int n)"
proof -
  have "rat_of_int \<bar>n\<bar> \<le> rat_of_int (2 ^ 53)" using assms by (simp only: of_int_le_iff)
  also have "\<dots> < 2 powi 1024" by simp
  finally have "\<bar>rat_of_int n * 2 powi 0\<bar> < 2 powi 1024" by simp
  from round64_fixed [OF _ assms this] show ?thesis by simp
qed

lemma round64_minus: "round64 (- q) = fneg (round64 q)"
proof -
  define B :: rat where "B = 2 powi 1024"
  have "0 < B" by (simp add: B_def)
  then show ?thesis
    unfolding round64_def Let_def B_def [symmetric] by (auto simp: nearest_minus)
qed

lemma round64_mono:
  assumes "p \<le> q"
  shows "fle (round64 p) (round64 q)"
proof -
  have n: "nearest p \<le> nearest q" using assms by (rule nearest_mono)
  define B :: rat where "B = 2 powi 1024"
  have "0 < B" by (simp add: B_def)
  with n show ?thesis
    unfolding round64_def Let_def B_def [symmetric] by auto
qed

lemma round64_eqI:
  assumes "q \<noteq> 0" and "- 1022 \<le> e" and "\<bar>q\<bar> < 2 powi (e + 1)"
    and "e = - 1022 \<or> 2 powi e \<le> \<bar>q\<bar>"
    and "\<bar>q / 2 powi (e - 52) - rat_of_int n\<bar> < 1 / 2 \<or>
         (\<bar>q / 2 powi (e - 52) - rat_of_int n\<bar> = 1 / 2 \<and> even n)"
    and "\<bar>rat_of_int n * 2 powi (e - 52)\<bar> < 2 powi 1024"
  shows "round64 q = Finite (rat_of_int n * 2 powi (e - 52))"
proof -
  have "level q = e" using assms(2,3,4,1) by (rule level_eqI)
  then have u: "quantum q = 2 powi (e - 52)" by (simp add: quantum_def)
  have "round_half_even (q / 2 powi (e - 52)) = n" using assms(5) by (rule round_half_even_eqI)
  then have "nearest q = rat_of_int n * 2 powi (e - 52)" by (simp add: nearest_def u)
  then show ?thesis using assms(6) by (simp only: round64_Finite_iff abs_less_iff) simp
qed

subsection \<open>The operations\<close>

lemma fneg_fneg [simp]: "fneg (fneg x) = x"
  by (cases x) simp_all

lemma is_f64_fneg [simp]: "is_f64 (fneg x) = is_f64 x"
proof (cases x)
  case (Finite q)
  have "round64 (- q) = Finite (- q) \<longleftrightarrow> round64 q = Finite q"
    by (cases "round64 q") (simp_all add: round64_minus)
  then show ?thesis using Finite by (simp add: is_f64_def)
qed simp_all

lemma is_f64_fadd [simp]: "is_f64 (fadd x y)"
  by (cases x; cases y) simp_all

lemma is_f64_fsub [simp]: "is_f64 (fsub x y)"
  by (simp add: fsub_def)

lemma is_f64_fmul [simp]: "is_f64 x \<Longrightarrow> is_f64 y \<Longrightarrow> is_f64 (fmul x y)"
  by (cases x; cases y) simp_all

lemma is_f64_fdiv_int [simp]: "is_f64 (fdiv_int x n)"
  by (cases x) simp_all

lemma fadd_zero_left: "is_f64 x \<Longrightarrow> fadd (Finite 0) x = x"
  by (cases x) (simp_all add: is_f64_def)

lemma fadd_zero_right: "is_f64 x \<Longrightarrow> fadd x (Finite 0) = x"
  by (cases x) (simp_all add: is_f64_def)

lemma is_finite64_iff: "is_finite64 x \<longleftrightarrow> (\<exists>q. x = Finite q \<and> round64 q = Finite q)"
  by (cases x) (simp_all add: is_finite64_def)

lemma is_finite64_is_f64: "is_finite64 x \<Longrightarrow> is_f64 x"
  by (auto simp: is_finite64_iff is_f64_def)

lemma fle_round64_PInf [simp]: "fle (round64 q) PInf"
  by (cases "round64 q") simp_all

lemma fle_NInf_round64 [simp]: "fle NInf (round64 q)"
  by (cases "round64 q") simp_all

lemma fle_trans: "fle x y \<Longrightarrow> fle y z \<Longrightarrow> fle x z"
  by (cases x; cases y; cases z) simp_all

lemma fle_flt_trans: "fle x y \<Longrightarrow> flt y z \<Longrightarrow> flt x z"
  by (cases x; cases y; cases z) simp_all

lemma flt_imp_fle: "flt x y \<Longrightarrow> fle x y"
  by (cases x; cases y) simp_all

lemma fle_refl: "x \<noteq> NaN \<Longrightarrow> fle x x"
  by (cases x) simp_all

text \<open>Adding a number that is not negative does not go down; adding one that is not
  positive does not go up.\<close>

lemma fadd_up:
  assumes "is_f64 t" and "t \<noteq> NaN" and "t \<noteq> NInf" and "fle (Finite 0) a"
  shows "fle t (fadd t a)" and "fadd t a \<noteq> NaN" and "fadd t a \<noteq> NInf"
proof -
  have "fle t (fadd t a)"
  proof (cases t)
    case (Finite q)
    then have q: "round64 q = Finite q" using assms(1) by (simp add: is_f64_def)
    show ?thesis
    proof (cases a)
      case (Finite b)
      then have "q \<le> q + b" using assms(4) by simp
      then have "fle (round64 q) (round64 (q + b))" by (rule round64_mono)
      then show ?thesis using \<open>t = Finite q\<close> Finite q by simp
    qed (use assms(4) Finite in simp_all)
  qed (use assms in \<open>(cases a; simp)+\<close>)
  then show "fle t (fadd t a)" .
  then show "fadd t a \<noteq> NaN" and "fadd t a \<noteq> NInf"
    using assms(2,3) by (cases t; cases "fadd t a"; simp)+
qed

lemma fadd_down:
  assumes "is_f64 t" and "t \<noteq> NaN" and "t \<noteq> PInf" and "fle a (Finite 0)"
  shows "fle (fadd t a) t" and "fadd t a \<noteq> NaN" and "fadd t a \<noteq> PInf"
proof -
  have "fle (fadd t a) t"
  proof (cases t)
    case (Finite q)
    then have q: "round64 q = Finite q" using assms(1) by (simp add: is_f64_def)
    show ?thesis
    proof (cases a)
      case (Finite b)
      then have "q + b \<le> q" using assms(4) by simp
      then have "fle (round64 (q + b)) (round64 q)" by (rule round64_mono)
      then show ?thesis using \<open>t = Finite q\<close> Finite q by simp
    qed (use assms(4) Finite in simp_all)
  qed (use assms in \<open>(cases a; simp)+\<close>)
  then show "fle (fadd t a) t" .
  then show "fadd t a \<noteq> NaN" and "fadd t a \<noteq> PInf"
    using assms(2,3) by (cases t; cases "fadd t a"; simp)+
qed

section \<open>The loops of the script in binary64\<close>

lemma savings_loop64_append:
  "savings_loop64 nas fee ys tot acc = acc @ savings_loop64 nas fee ys tot []"
proof (induction ys arbitrary: tot acc)
  case Nil
  show ?case by simp
next
  case (Cons y ys)
  let ?t = "if y = 1 then fsub (fadd tot nas) fee else fadd tot nas"
  have "savings_loop64 nas fee (y # ys) tot acc = savings_loop64 nas fee ys ?t (acc @ [?t])"
    by (simp add: Let_def)
  also have "\<dots> = (acc @ [?t]) @ savings_loop64 nas fee ys ?t []"
    by (rule Cons.IH)
  also have "\<dots> = acc @ ([] @ [?t]) @ savings_loop64 nas fee ys ?t []"
    by simp
  also have "([] @ [?t]) @ savings_loop64 nas fee ys ?t [] =
             savings_loop64 nas fee ys ?t ([] @ [?t])"
    by (rule Cons.IH [symmetric])
  also have "savings_loop64 nas fee ys ?t ([] @ [?t]) = savings_loop64 nas fee (y # ys) tot []"
    by (simp add: Let_def)
  finally show ?case .
qed

lemma savings_loop64_Cons:
  "savings_loop64 nas fee (y # ys) tot [] =
     (if y = 1 then fsub (fadd tot nas) fee else fadd tot nas) #
       savings_loop64 nas fee ys (if y = 1 then fsub (fadd tot nas) fee else fadd tot nas) []"
proof -
  let ?t = "if y = 1 then fsub (fadd tot nas) fee else fadd tot nas"
  have "savings_loop64 nas fee (y # ys) tot [] = savings_loop64 nas fee ys ?t [?t]"
    by (simp add: Let_def)
  also have "\<dots> = [?t] @ savings_loop64 nas fee ys ?t []"
    by (rule savings_loop64_append)
  finally show ?thesis by simp
qed

lemma savings_loop64_later_years:
  "2 \<le> i \<Longrightarrow> savings_loop64 nas fee [i..j] tot [] = add_chain nas tot (nat (j + 1 - i))"
proof (induction "nat (j + 1 - i)" arbitrary: i tot)
  case 0
  then have "j < i" by simp
  then show ?case using 0 by simp
next
  case (Suc n)
  then have le: "i \<le> j" by simp
  have step: "[i..j] = i # [i + 1..j]" using le by (rule upto_rec1)
  have n: "n = nat (j + 1 - (i + 1))" using Suc.hyps(2) by simp
  have i2: "2 \<le> i + 1" and i1: "i \<noteq> 1" using Suc.prems by simp_all
  have IH: "savings_loop64 nas fee [i + 1..j] (fadd tot nas) [] =
              add_chain nas (fadd tot nas) (nat (j + 1 - (i + 1)))"
    using Suc.hyps(1) [OF n i2] .
  have "savings_loop64 nas fee [i..j] tot [] =
          fadd tot nas # savings_loop64 nas fee [i + 1..j] (fadd tot nas) []"
    unfolding step savings_loop64_Cons using i1 by simp
  also have "\<dots> = fadd tot nas # add_chain nas (fadd tot nas) n"
    by (simp only: IH n [symmetric])
  also have "\<dots> = add_chain nas tot (Suc n)" by simp
  finally show ?case by (simp only: Suc.hyps(2))
qed

lemma savings_loop64_closed:
  assumes "1 \<le> years"
  shows "savings_loop64 nas fee [1..years] (Finite 0) [] =
           fsub (fadd (Finite 0) nas) fee #
           add_chain nas (fsub (fadd (Finite 0) nas) fee) (nat (years - 1))"
proof -
  have step: "[1..years] = 1 # [2..years]" using upto_rec1 [OF assms] by simp
  have "savings_loop64 nas fee [1..years] (Finite 0) [] =
          fsub (fadd (Finite 0) nas) fee #
          savings_loop64 nas fee [2..years] (fsub (fadd (Finite 0) nas) fee) []"
    unfolding step savings_loop64_Cons by simp
  also have "savings_loop64 nas fee [2..years] (fsub (fadd (Finite 0) nas) fee) [] =
             add_chain nas (fsub (fadd (Finite 0) nas) fee) (nat (years + 1 - 2))"
    by (rule savings_loop64_later_years) simp
  also have "nat (years + 1 - 2) = nat (years - 1)" by simp
  finally show ?thesis .
qed

lemma length_add_chain [simp]: "length (add_chain a t n) = n"
  by (induction n arbitrary: t) simp_all

lemma nth_add_chain:
  "k < n \<Longrightarrow> (t # add_chain a t n) ! Suc k = fadd ((t # add_chain a t n) ! k) a"
proof (induction n arbitrary: t k)
  case 0
  then show ?case by simp
next
  case (Suc n)
  show ?case
  proof (cases k)
    case 0
    then show ?thesis by simp
  next
    case (Suc k')
    then have "k' < n" using Suc.prems by simp
    from Suc.IH [OF this, of "fadd t a"] show ?thesis using Suc by simp
  qed
qed

lemma add_chain_up:
  assumes "fle (Finite 0) a"
  shows "is_f64 t \<Longrightarrow> t \<noteq> NaN \<Longrightarrow> t \<noteq> NInf \<Longrightarrow> sorted_wrt fle (t # add_chain a t n)"
proof (induction n arbitrary: t)
  case 0
  then show ?case by simp
next
  case (Suc n)
  note up = fadd_up [OF Suc.prems assms]
  have tail: "sorted_wrt fle (fadd t a # add_chain a (fadd t a) n)"
    using up(2,3) by (intro Suc.IH) simp_all
  have "fle t x" if "x \<in> set (fadd t a # add_chain a (fadd t a) n)" for x
  proof (cases "x = fadd t a")
    case True
    then show ?thesis using up(1) by simp
  next
    case False
    with that have "x \<in> set (add_chain a (fadd t a) n)" by simp
    with tail have "fle (fadd t a) x" by simp
    with up(1) show ?thesis by (rule fle_trans)
  qed
  with tail show ?case by simp
qed

lemma add_chain_down:
  assumes "fle a (Finite 0)"
  shows "is_f64 t \<Longrightarrow> t \<noteq> NaN \<Longrightarrow> t \<noteq> PInf \<Longrightarrow>
         sorted_wrt (\<lambda>x y. fle y x) (t # add_chain a t n)"
proof (induction n arbitrary: t)
  case 0
  then show ?case by simp
next
  case (Suc n)
  note down = fadd_down [OF Suc.prems assms]
  have tail: "sorted_wrt (\<lambda>x y. fle y x) (fadd t a # add_chain a (fadd t a) n)"
    using down(2,3) by (intro Suc.IH) simp_all
  have "fle x t" if "x \<in> set (fadd t a # add_chain a (fadd t a) n)" for x
  proof (cases "x = fadd t a")
    case True
    then show ?thesis using down(1) by simp
  next
    case False
    with that have "x \<in> set (add_chain a (fadd t a) n)" by simp
    with tail have "fle x (fadd t a)" by simp
    then show ?thesis using down(1) by (rule fle_trans)
  qed
  with tail show ?case by simp
qed

subsection \<open>The results of a run\<close>

lemma project64_annualTrappedTotal:
  "annualTrappedTotal (project64 p) = py_sum64 (dict_values (trappedFunds p))"
  by (simp add: project64_def calculate_savings64_def Let_def)

lemma project64_annualCurrentLoss:
  "annualCurrentLoss (project64 p) =
     fmul (annualTrappedTotal (project64 p)) (fdiv_int (annualLossRatePercent p) 100)"
  by (simp add: project64_def calculate_savings64_def Let_def)

lemma project64_annualBlockchainCost:
  "annualBlockchainCost (project64 p) =
     fmul (annualTrappedTotal (project64 p)) (fdiv_int (transactionFeePercent p) 100)"
  by (simp add: project64_def calculate_savings64_def Let_def)

lemma project64_netAnnualSavings:
  "netAnnualSavings (project64 p) =
     fsub (annualCurrentLoss (project64 p)) (annualBlockchainCost (project64 p))"
  by (simp add: project64_def calculate_savings64_def Let_def)

lemma project64_cumulative:
  "cumulativeSavingsByYear (project64 p) =
     savings_loop64 (netAnnualSavings (project64 p)) (consultingFee p) [1..horizonYears p]
       (Finite 0) []"
  by (simp add: project64_def calculate_savings64_def Let_def)

lemma project64_paybackYear:
  "paybackYear (project64 p) =
     payback_period64 (netAnnualSavings (project64 p)) (consultingFee p) (horizonYears p)"
  by (simp add: project64_def calculate_savings64_def Let_def)

lemma is_f64_netAnnualSavings [simp]: "is_f64 (netAnnualSavings (project64 p))"
  by (simp add: project64_netAnnualSavings)

lemma project64_cumulative_closed:
  assumes "1 \<le> horizonYears p"
  shows "cumulativeSavingsByYear (project64 p) =
           fsub (netAnnualSavings (project64 p)) (consultingFee p) #
           add_chain (netAnnualSavings (project64 p))
             (fsub (netAnnualSavings (project64 p)) (consultingFee p))
             (nat (horizonYears p - 1))"
  by (simp add: project64_cumulative savings_loop64_closed [OF assms] fadd_zero_left)

lemma length_cumulative64:
  "1 \<le> horizonYears p \<Longrightarrow> length (cumulativeSavingsByYear (project64 p)) = nat (horizonYears p)"
  by (simp add: project64_cumulative_closed)

subsection \<open>The payback loop\<close>

lemma payback_loop64_Some: "payback_loop64 nas fee ys (Some y) c = Some y"
  by (induction ys arbitrary: c) (simp_all add: Let_def)

lemma payback_loop64_None_Cons:
  "payback_loop64 nas fee (y # ys) None c =
     (if fle (Finite 0) (payback_step nas fee c y) then Some y
      else payback_loop64 nas fee ys None (payback_step nas fee c y))"
  by (simp add: Let_def payback_step_def payback_loop64_Some)

lemma payback_loop64_find:
  "payback_loop64 nas fee [i..j] None c =
     find (\<lambda>y. fle (Finite 0) (foldl (payback_step nas fee) c [i..y])) [i..j]"
proof (induction "nat (j + 1 - i)" arbitrary: i c)
  case 0
  then have "j < i" by simp
  then show ?case by simp
next
  case (Suc n)
  then have le: "i \<le> j" by simp
  have step: "[i..j] = i # [i + 1..j]" using le by (rule upto_rec1)
  have n: "n = nat (j + 1 - (i + 1))" using Suc.hyps(2) by simp
  let ?c = "payback_step nas fee c i"
  have IH: "payback_loop64 nas fee [i + 1..j] None ?c =
              find (\<lambda>y. fle (Finite 0) (foldl (payback_step nas fee) ?c [i + 1..y])) [i + 1..j]"
    using Suc.hyps(1) [OF n] .
  have tail: "find (\<lambda>y. fle (Finite 0) (foldl (payback_step nas fee) ?c [i + 1..y])) [i + 1..j] =
              find (\<lambda>y. fle (Finite 0) (foldl (payback_step nas fee) c [i..y])) [i + 1..j]"
  proof (rule find_cong [OF refl])
    fix y assume "y \<in> set [i + 1..j]"
    then have "i \<le> y" by simp
    then have "[i..y] = i # [i + 1..y]" by (rule upto_rec1)
    then show "fle (Finite 0) (foldl (payback_step nas fee) ?c [i + 1..y]) =
               fle (Finite 0) (foldl (payback_step nas fee) c [i..y])"
      by simp
  qed
  have "payback_loop64 nas fee [i..j] None c =
          (if fle (Finite 0) ?c then Some i else payback_loop64 nas fee [i + 1..j] None ?c)"
    unfolding step by (rule payback_loop64_None_Cons)
  also have "\<dots> = (if fle (Finite 0) ?c then Some i
                     else find (\<lambda>y. fle (Finite 0) (foldl (payback_step nas fee) c [i..y]))
                            [i + 1..j])"
    by (simp only: IH tail)
  also have "\<dots> = find (\<lambda>y. fle (Finite 0) (foldl (payback_step nas fee) c [i..y]))
                      (i # [i + 1..j])"
    by simp
  finally show ?case by (simp only: step [symmetric])
qed

text \<open>After year 1 both accumulations only add the net annual savings.\<close>

lemma foldl_later_years:
  assumes "2 \<le> i"
  shows "foldl (payback_step nas fee) c [i..y] = foldl (\<lambda>s k. fadd s nas) c [i..y]"
    and "foldl (spec_step64 nas fee) c [i..y] = foldl (\<lambda>s k. fadd s nas) c [i..y]"
proof -
  have "payback_step nas fee s k = fadd s nas" and "spec_step64 nas fee s k = fadd s nas"
    if "k \<in> set [i..y]" for s k
    using that assms by (simp_all add: payback_step_def spec_step64_def)
  then show "foldl (payback_step nas fee) c [i..y] = foldl (\<lambda>s k. fadd s nas) c [i..y]"
    and "foldl (spec_step64 nas fee) c [i..y] = foldl (\<lambda>s k. fadd s nas) c [i..y]"
    by (intro foldl_cong refl; simp)+
qed

lemma running_sum_code_spec:
  assumes "is_f64 nas"
  shows "foldl (payback_step nas fee) (Finite 0) [1..y] = spec_running_sum64 nas fee y"
proof (cases "1 \<le> y")
  case False
  then show ?thesis by (simp add: spec_running_sum64_def)
next
  case True
  then have step: "[1..y] = 1 # [2..y]" using upto_rec1 [of 1 y] by simp
  let ?c = "fsub nas (fdiv_int fee 1000000)"
  have a: "payback_step nas fee (Finite 0) 1 = ?c"
    by (simp add: payback_step_def fadd_zero_left)
  have b: "spec_step64 nas fee (Finite 0) 1 = ?c"
    using assms by (simp add: spec_step64_def fadd_zero_left)
  show ?thesis
    unfolding spec_running_sum64_def step
    by (simp add: a b foldl_later_years)
qed

lemma running_sum_first:
  assumes "is_f64 nas" and "1 \<le> y"
  shows "spec_running_sum64 nas fee y =
           foldl (\<lambda>s k. fadd s nas) (fsub nas (fdiv_int fee 1000000)) [2..y]"
proof -
  have step: "[1..y] = 1 # [2..y]" using upto_rec1 [of 1 y] assms(2) by simp
  have b: "spec_step64 nas fee (Finite 0) 1 = fsub nas (fdiv_int fee 1000000)"
    using assms by (simp add: spec_step64_def fadd_zero_left)
  show ?thesis unfolding spec_running_sum64_def step by (simp add: b foldl_later_years)
qed

lemma payback_period64_spec:
  assumes "is_f64 nas"
  shows "payback_period64 nas fee horizon = spec_payback_year64 nas fee horizon"
  by (simp add: payback_period64_def spec_payback_year64_def payback_loop64_find
      running_sum_code_spec [OF assms])

lemma spec_payback_year64_range:
  "spec_payback_year64 nas fee horizon = Some y \<Longrightarrow> 1 \<le> y \<and> y \<le> horizon"
  by (auto simp: spec_payback_year64_def find_Some_iff dest: nth_mem)

text \<open>
  The payback year of the specification's description, read without \<open>find\<close>: it is
  the least year of the horizon whose running sum is at least \<open>0\<close>.
\<close>

lemma spec_payback_year64_None_iff:
  "spec_payback_year64 nas fee horizon = None \<longleftrightarrow>
     (\<forall>y. 1 \<le> y \<and> y \<le> horizon \<longrightarrow> \<not> fle (Finite 0) (spec_running_sum64 nas fee y))"
  by (auto simp: spec_payback_year64_def find_None_iff)

lemma spec_payback_year64_Some_iff:
  "spec_payback_year64 nas fee horizon = Some y \<longleftrightarrow>
     1 \<le> y \<and> y \<le> horizon \<and> fle (Finite 0) (spec_running_sum64 nas fee y) \<and>
     (\<forall>k. 1 \<le> k \<and> k < y \<longrightarrow> \<not> fle (Finite 0) (spec_running_sum64 nas fee k))"
proof
  assume "spec_payback_year64 nas fee horizon = Some y"
  then obtain i where i: "i < length [1..horizon]"
    and p: "fle (Finite 0) (spec_running_sum64 nas fee ([1..horizon] ! i))"
    and y: "y = [1..horizon] ! i"
    and first: "\<forall>j<i. \<not> fle (Finite 0) (spec_running_sum64 nas fee ([1..horizon] ! j))"
    unfolding spec_payback_year64_def find_Some_iff by blast
  from i have yi: "y = 1 + int i" and ih: "1 + int i \<le> horizon" using y by simp_all
  have "\<not> fle (Finite 0) (spec_running_sum64 nas fee k)" if "1 \<le> k \<and> k < y" for k
  proof -
    from that yi have j: "nat (k - 1) < i" by arith
    with ih that have "[1..horizon] ! nat (k - 1) = k" by simp
    with first j show ?thesis by metis
  qed
  with p y yi ih show "1 \<le> y \<and> y \<le> horizon \<and> fle (Finite 0) (spec_running_sum64 nas fee y) \<and>
     (\<forall>k. 1 \<le> k \<and> k < y \<longrightarrow> \<not> fle (Finite 0) (spec_running_sum64 nas fee k))"
    by simp
next
  assume a: "1 \<le> y \<and> y \<le> horizon \<and> fle (Finite 0) (spec_running_sum64 nas fee y) \<and>
     (\<forall>k. 1 \<le> k \<and> k < y \<longrightarrow> \<not> fle (Finite 0) (spec_running_sum64 nas fee k))"
  let ?i = "nat (y - 1)"
  from a have i: "?i < length [1..horizon]" and y: "[1..horizon] ! ?i = y" by simp_all
  have "\<not> fle (Finite 0) (spec_running_sum64 nas fee ([1..horizon] ! j))" if "j < ?i" for j
  proof -
    from that a have b: "1 \<le> 1 + int j \<and> 1 + int j < y" by arith
    with a have "1 + int j \<le> horizon" by simp
    then have "[1..horizon] ! j = 1 + int j" by (rule nth_upto)
    then show ?thesis using a b by simp
  qed
  with i y a show "spec_payback_year64 nas fee horizon = Some y"
    unfolding spec_payback_year64_def find_Some_iff by (intro exI [of _ ?i]) simp
qed

subsection \<open>Signs of the running sums\<close>

lemma flt_not_fle: "flt x y \<Longrightarrow> \<not> fle y x"
  by (cases x; cases y) simp_all

lemma valid_params64_fee:
  assumes "valid_params64 p"
  obtains f where "consultingFee p = Finite f" and "round64 f = Finite f" and "0 \<le> f"
  using assms by (auto simp: valid_params64_def is_finite64_iff)

lemma valid_params64_horizon: "valid_params64 p \<Longrightarrow> 1 \<le> horizonYears p"
  by (simp add: valid_params64_def)

lemma first_value_up:
  assumes "round64 f = Finite f" and "fle (Finite 0) a"
  shows "fsub a (Finite f) \<noteq> NaN" and "fsub a (Finite f) \<noteq> NInf"
proof -
  have m: "round64 (- f) = Finite (- f)" using assms(1) by (simp add: round64_minus)
  show "fsub a (Finite f) \<noteq> NaN" using assms(2) by (cases a) (simp_all add: fsub_def)
  show "fsub a (Finite f) \<noteq> NInf"
  proof (cases a)
    case (Finite b)
    then have "- f \<le> b + - f" using assms(2) by simp
    then have "fle (round64 (- f)) (round64 (b + - f))" by (rule round64_mono)
    then show ?thesis using Finite m by (cases "round64 (b + - f)") (simp_all add: fsub_def)
  qed (use assms(2) in \<open>simp_all add: fsub_def\<close>)
qed

lemma first_value_down:
  assumes "0 \<le> f" and "fle a (Finite 0)"
  shows "fsub a (Finite f) \<noteq> NaN" and "fsub a (Finite f) \<noteq> PInf"
proof -
  show "fsub a (Finite f) \<noteq> NaN" using assms(2) by (cases a) (simp_all add: fsub_def)
  show "fsub a (Finite f) \<noteq> PInf"
  proof (cases a)
    case (Finite b)
    then have "b + - f \<le> 0" using assms by simp
    then have "fle (round64 (b + - f)) (round64 0)" by (rule round64_mono)
    then show ?thesis using Finite by (cases "round64 (b + - f)") (simp_all add: fsub_def)
  qed (use assms(2) in \<open>simp_all add: fsub_def\<close>)
qed

lemma scaled_fee:
  assumes "round64 f = Finite f" and "0 \<le> f"
  obtains d where "fdiv_int (Finite f) 1000000 = Finite d" and "round64 d = Finite d" and "0 \<le> d"
proof -
  have "0 \<le> f / 1000000" and "f / 1000000 \<le> f" using assms(2) by simp_all
  then have lo: "fle (round64 0) (round64 (f / 1000000))"
    and hi: "fle (round64 (f / 1000000)) (round64 f)"
    by (simp_all only: round64_mono)
  then obtain d where d: "round64 (f / 1000000) = Finite d"
    using assms(1) by (cases "round64 (f / 1000000)") simp_all
  moreover have "0 \<le> d" using lo d by simp
  moreover have "round64 d = Finite d" using d by (rule round64_idem)
  ultimately show ?thesis using that by simp
qed

lemma payback_start_negative:
  assumes nas: "is_f64 a" "fle a (Finite 0)"
    and d: "round64 d = Finite d" "0 \<le> d"
    and strict: "flt a (Finite 0) \<or> 0 < d"
  shows "flt (fsub a (Finite d)) (Finite 0)" and "fsub a (Finite d) \<noteq> PInf"
proof -
  have m: "round64 (- d) = Finite (- d)" using d(1) by (simp add: round64_minus)
  show "flt (fsub a (Finite d)) (Finite 0)"
  proof (cases a)
    case (Finite b)
    then have b: "round64 b = Finite b" "b \<le> 0" using nas by (simp_all add: is_f64_def)
    from strict show ?thesis
    proof
      assume "flt a (Finite 0)"
      then have "b < 0" using Finite by simp
      have "b + - d \<le> b" using d(2) by simp
      then have "fle (round64 (b + - d)) (round64 b)" by (rule round64_mono)
      then show ?thesis
        using Finite b(1) \<open>b < 0\<close> by (cases "round64 (b + - d)") (simp_all add: fsub_def)
    next
      assume "0 < d"
      have "b + - d \<le> - d" using b(2) by simp
      then have "fle (round64 (b + - d)) (round64 (- d))" by (rule round64_mono)
      then show ?thesis
        using Finite m \<open>0 < d\<close> by (cases "round64 (b + - d)") (simp_all add: fsub_def)
    qed
  qed (use nas(2) in \<open>simp_all add: fsub_def\<close>)
  then show "fsub a (Finite d) \<noteq> PInf" by (cases "fsub a (Finite d)") simp_all
qed

lemma foldl_stays_negative:
  assumes "fle a (Finite 0)"
  shows "is_f64 c \<Longrightarrow> flt c (Finite 0) \<Longrightarrow> c \<noteq> PInf \<Longrightarrow>
         flt (foldl (\<lambda>s k. fadd s a) c ks) (Finite 0)"
proof (induction ks arbitrary: c)
  case Nil
  then show ?case by simp
next
  case (Cons k ks)
  have nan: "c \<noteq> NaN" using Cons.prems(2) by (cases c) simp_all
  note down = fadd_down [OF Cons.prems(1) nan Cons.prems(3) assms]
  have "flt (fadd c a) (Finite 0)" using down(1) Cons.prems(2) by (rule fle_flt_trans)
  then have "flt (foldl (\<lambda>s k. fadd s a) (fadd c a) ks) (Finite 0)"
    using down(3) by (intro Cons.IH) simp_all
  then show ?case by simp
qed

lemma running_sum_negative64:
  assumes "is_f64 a" "fle a (Finite 0)" "round64 d = Finite d" "0 \<le> d"
    and "flt a (Finite 0) \<or> 0 < d" and "fdiv_int fee 1000000 = Finite d" and "1 \<le> y"
  shows "flt (spec_running_sum64 a fee y) (Finite 0)"
proof -
  note start = payback_start_negative [OF assms(1,2,3,4,5)]
  have "spec_running_sum64 a fee y = foldl (\<lambda>s k. fadd s a) (fsub a (Finite d)) [2..y]"
    using running_sum_first [OF assms(1,7), of fee] by (simp only: assms(6))
  also have "flt \<dots> (Finite 0)"
    using assms(2) _ start by (rule foldl_stays_negative) simp
  finally show ?thesis .
qed

section \<open>The scenarios in binary64\<close>

subsection \<open>Concrete roundings\<close>

lemma round64_numeral [simp]:
  "numeral k \<le> (9007199254740992::int) \<Longrightarrow> round64 (numeral k) = Finite (numeral k)"
  using round64_of_int [of "numeral k"] by simp

lemma round64_neg_numeral [simp]:
  "numeral k \<le> (9007199254740992::int) \<Longrightarrow> round64 (- numeral k) = Finite (- numeral k)"
  using round64_of_int [of "- numeral k"] by simp

lemma round64_1 [simp]: "round64 1 = Finite 1"
  using round64_of_int [of 1] by simp

lemma round64_quarters:
  "round64 (9 / 4) = Finite (9 / 4)" "round64 (7 / 2) = Finite (7 / 2)"
  "round64 (1 / 4) = Finite (1 / 4)"
  using round64_fixed [of "- 2" 9] round64_fixed [of "- 1" 7] round64_fixed [of "- 2" 1]
  by simp_all

lemma round64_smallest: "round64 smallest_f64 = Finite smallest_f64"
  using round64_fixed [of "- 1074" 1] by (simp add: smallest_f64_def)

lemma smallest_f64_pos: "0 < smallest_f64"
  by (simp add: smallest_f64_def)

lemma percent_15: "fdiv_int (Finite 15) 100 = Finite (5404319552844595 / 36028797018963968)"
  using round64_eqI [of "15 / 100" "- 3" 5404319552844595] by simp

lemma percent_9_4: "fdiv_int (Finite (9 / 4)) 100 = Finite (3242591731706757 / 144115188075855872)"
  using round64_eqI [of "9 / 4 / 100" "- 6" 6485183463413514] by simp

lemma percent_5: "fdiv_int (Finite 5) 100 = Finite (3602879701896397 / 72057594037927936)"
  using round64_eqI [of "5 / 100" "- 5" 7205759403792794] by simp

lemma percent_7_2: "fdiv_int (Finite (7 / 2)) 100 = Finite (1261007895663739 / 36028797018963968)"
  using round64_eqI [of "7 / 2 / 100" "- 5" 5044031582654956] by simp

lemma percent_0 [simp]: "fdiv_int (Finite 0) n = Finite 0"
  by simp

lemma fmul_zero [simp]: "fmul (Finite 0) (Finite b) = Finite 0" "fmul (Finite a) (Finite 0) = Finite 0"
  by simp_all

lemma add_chain_1: "add_chain a t 1 = [fadd t a]"
  by simp

lemma add_chain_2: "add_chain a t 2 = [fadd t a, fadd (fadd t a) a]"
  by (simp add: numeral_2_eq_2)

lemma loss_15: "fmul (Finite 1800000) (Finite (5404319552844595 / 36028797018963968)) = Finite 270000"
  using round64_eqI [of "1800000 * (5404319552844595 / 36028797018963968)" 18 4638564679680000]
  by simp

lemma cost_9_4:
  "fmul (Finite 1800000) (Finite (3242591731706757 / 144115188075855872)) = Finite 40500"
  using round64_eqI [of "1800000 * (3242591731706757 / 144115188075855872)" 15 5566277615616000]
  by simp

lemma cost_5: "fmul (Finite 1800000) (Finite (3602879701896397 / 72057594037927936)) = Finite 90000"
  using round64_eqI [of "1800000 * (3602879701896397 / 72057594037927936)" 16 6184752906240000]
  by simp

lemma loss_7_2:
  "fmul (Finite 1800000) (Finite (1261007895663739 / 36028797018963968)) =
     Finite (8658654068736001 / 137438953472)"
  using round64_eqI [of "1800000 * (1261007895663739 / 36028797018963968)" 15 8658654068736001]
  by simp

lemma rounding_year_1:
  "fsub (Finite (8658654068736001 / 137438953472)) (Finite 250000) = Finite (- 187000)"
  using round64_eqI [of "8658654068736001 / 137438953472 - 250000" 17 "- 6425271074816000"]
  by (simp add: fsub_def)

lemma rounding_year_2:
  "fadd (Finite (- 187000)) (Finite (8658654068736001 / 137438953472)) = Finite (- 124000)"
  using round64_eqI [of "- 187000 + 8658654068736001 / 137438953472" 16 "- 8521215115264000"]
  by simp

lemma fee_underflow: "fdiv_int (Finite smallest_f64) 1000000 = Finite 0"
  using round64_eqI [of "1 / 2 ^ 1074 / 1000000" "- 1022" 0] by (simp add: smallest_f64_def)

lemma default_trapped_total64: "py_sum64 (dict_values default_trapped_funds64) = Finite 1800000"
  by (simp add: py_sum64_def dict_values_def default_trapped_funds64_def)

lemma valid_average_estimate64: "valid_params64 average_estimate64"
  by (simp add: valid_params64_def average_estimate64_def default_trapped_funds64_def
      default_transactions_def dict_keys_def dict_values_def is_finite64_def round64_quarters)

lemma valid_loss_making_scenario64: "valid_params64 loss_making_scenario64"
  by (simp add: valid_params64_def loss_making_scenario64_def default_trapped_funds64_def
      default_transactions_def dict_keys_def dict_values_def is_finite64_def)

lemma valid_rounding_scenario64: "valid_params64 rounding_scenario64"
  by (simp add: valid_params64_def rounding_scenario64_def default_trapped_funds64_def
      default_transactions_def dict_keys_def dict_values_def is_finite64_def round64_quarters)

lemma valid_underflow_scenario64: "valid_params64 underflow_scenario64"
  by (simp add: valid_params64_def underflow_scenario64_def
      default_transactions_def dict_keys_def dict_values_def is_finite64_def round64_smallest
      less_imp_le [OF smallest_f64_pos])

lemmas project64_fields = project64_netAnnualSavings project64_annualCurrentLoss
  project64_annualBlockchainCost project64_annualTrappedTotal

lemma netAnnualSavings_average64: "netAnnualSavings (project64 average_estimate64) = Finite 229500"
  by (simp add: project64_fields average_estimate64_def
      default_trapped_total64 percent_15 percent_9_4 loss_15 cost_9_4 fsub_def
      del: fdiv_int.simps fmul.simps)

lemma netAnnualSavings_loss_making64:
  "netAnnualSavings (project64 loss_making_scenario64) = Finite (- 90000)"
  by (simp add: project64_fields loss_making_scenario64_def
      default_trapped_total64 percent_5 cost_5 fsub_def del: fdiv_int.simps fmul.simps)

lemma round64_rounding_savings:
  "round64 (8658654068736001 / 137438953472) = Finite (8658654068736001 / 137438953472)"
  using round64_fixed [of "- 37" 8658654068736001] by simp

lemma netAnnualSavings_rounding64:
  "netAnnualSavings (project64 rounding_scenario64) = Finite (8658654068736001 / 137438953472)"
  by (simp add: project64_fields rounding_scenario64_def
      default_trapped_total64 percent_7_2 loss_7_2 fsub_def round64_rounding_savings
      del: fdiv_int.simps fmul.simps)

lemma netAnnualSavings_underflow64: "netAnnualSavings (project64 underflow_scenario64) = Finite 0"
  by (simp add: project64_fields underflow_scenario64_def
      py_sum64_def dict_values_def fsub_def del: fdiv_int.simps fmul.simps)

lemma cumulative_loss_making64:
  "cumulativeSavingsByYear (project64 loss_making_scenario64) =
     [Finite (- 340000), Finite (- 430000)]"
proof -
  have h: "horizonYears loss_making_scenario64 = 2"
    and f: "consultingFee loss_making_scenario64 = Finite 250000"
    by (simp_all add: loss_making_scenario64_def)
  show ?thesis
    by (simp add: project64_cumulative_closed h f netAnnualSavings_loss_making64 fsub_def
        add_chain_1)
qed

lemma cumulative_rounding64:
  "cumulativeSavingsByYear (project64 rounding_scenario64) ! 0 = Finite (- 187000)"
  "cumulativeSavingsByYear (project64 rounding_scenario64) ! 1 = Finite (- 124000)"
proof -
  have h: "horizonYears rounding_scenario64 = 3"
    and f: "consultingFee rounding_scenario64 = Finite 250000"
    by (simp_all add: rounding_scenario64_def)
  show "cumulativeSavingsByYear (project64 rounding_scenario64) ! 0 = Finite (- 187000)"
    by (simp add: project64_cumulative_closed h f netAnnualSavings_rounding64 rounding_year_1)
  show "cumulativeSavingsByYear (project64 rounding_scenario64) ! 1 = Finite (- 124000)"
    by (simp add: project64_cumulative_closed h f add_chain_2 netAnnualSavings_rounding64
        rounding_year_1 rounding_year_2 del: fadd.simps)
qed

text \<open>
  The scenario with funds of \<open>10\<close>: the rounding of each addition of the payback loop.
\<close>

lemma small_percent: "fdiv_int (Finite 1) 100 = Finite (5764607523034235 / 576460752303423488)"
  using round64_eqI [of "1 / 100" "- 7" 5764607523034235] by simp

lemma small_loss: "fmul (Finite 10) (Finite (5764607523034235 / 576460752303423488)) = Finite (3602879701896397 / 36028797018963968)"
  using round64_eqI [of "10 * (5764607523034235 / 576460752303423488)" "- 4" 7205759403792794] by simp

lemma small_year_1: "fsub (Finite (3602879701896397 / 36028797018963968)) (Finite 1) = Finite (- (8106479329266893 / 9007199254740992))"
  using round64_eqI [of "(3602879701896397 / 36028797018963968) - 1" "- 1" "- 8106479329266893"] by (simp add: fsub_def)

lemma small_year_2: "fadd (Finite (- (8106479329266893 / 9007199254740992))) (Finite (3602879701896397 / 36028797018963968)) = Finite (- (3602879701896397 / 4503599627370496))"
  using round64_eqI [of "(- (8106479329266893 / 9007199254740992)) + (3602879701896397 / 36028797018963968)" "- 1" "- 7205759403792794"] by simp

lemma small_year_3: "fadd (Finite (- (3602879701896397 / 4503599627370496))) (Finite (3602879701896397 / 36028797018963968)) = Finite (- (6305039478318695 / 9007199254740992))"
  using round64_eqI [of "(- (3602879701896397 / 4503599627370496)) + (3602879701896397 / 36028797018963968)" "- 1" "- 6305039478318695"] by simp

lemma small_year_4: "fadd (Finite (- (6305039478318695 / 9007199254740992))) (Finite (3602879701896397 / 36028797018963968)) = Finite (- (1351079888211149 / 2251799813685248))"
  using round64_eqI [of "(- (6305039478318695 / 9007199254740992)) + (3602879701896397 / 36028797018963968)" "- 1" "- 5404319552844596"] by simp

lemma small_year_5: "fadd (Finite (- (1351079888211149 / 2251799813685248))) (Finite (3602879701896397 / 36028797018963968)) = Finite (- (4503599627370497 / 9007199254740992))"
  using round64_eqI [of "(- (1351079888211149 / 2251799813685248)) + (3602879701896397 / 36028797018963968)" "- 1" "- 4503599627370497"] by simp

lemma small_year_6: "fadd (Finite (- (4503599627370497 / 9007199254740992))) (Finite (3602879701896397 / 36028797018963968)) = Finite (- (1801439850948199 / 4503599627370496))"
  using round64_eqI [of "(- (4503599627370497 / 9007199254740992)) + (3602879701896397 / 36028797018963968)" "- 2" "- 7205759403792796"] by simp

lemma small_year_7: "fadd (Finite (- (1801439850948199 / 4503599627370496))) (Finite (3602879701896397 / 36028797018963968)) = Finite (- (2702159776422299 / 9007199254740992))"
  using round64_eqI [of "(- (1801439850948199 / 4503599627370496)) + (3602879701896397 / 36028797018963968)" "- 2" "- 5404319552844598"] by simp

lemma small_year_8: "fadd (Finite (- (2702159776422299 / 9007199254740992))) (Finite (3602879701896397 / 36028797018963968)) = Finite (- (7205759403792799 / 36028797018963968))"
  using round64_eqI [of "(- (2702159776422299 / 9007199254740992)) + (3602879701896397 / 36028797018963968)" "- 3" "- 7205759403792799"] by simp

lemma small_year_9: "fadd (Finite (- (7205759403792799 / 36028797018963968))) (Finite (3602879701896397 / 36028797018963968)) = Finite (- (1801439850948201 / 18014398509481984))"
  using round64_eqI [of "(- (7205759403792799 / 36028797018963968)) + (3602879701896397 / 36028797018963968)" "- 4" "- 7205759403792804"] by simp

lemma small_year_10: "fadd (Finite (- (1801439850948201 / 18014398509481984))) (Finite (3602879701896397 / 36028797018963968)) = Finite (- (5 / 36028797018963968))"
  using round64_eqI [of "(- (1801439850948201 / 18014398509481984)) + (3602879701896397 / 36028797018963968)" "- 53" "- 5629499534213120"] by simp

lemma small_fee: "fdiv_int (Finite 1000000) 1000000 = Finite 1"
  by simp

lemmas small_years = small_year_1 small_year_2 small_year_3 small_year_4 small_year_5
  small_year_6 small_year_7 small_year_8 small_year_9 small_year_10

lemma netAnnualSavings_small64:
  "netAnnualSavings (project64 small_savings_scenario64) =
     Finite (3602879701896397 / 36028797018963968)"
proof -
  have "is_f64 (fmul (Finite 10) (Finite (5764607523034235 / 576460752303423488)))"
    using is_f64_fdiv_int [of "Finite 1" 100] by (simp only: small_percent is_f64_fmul is_f64_round64 fmul.simps)
  then have r: "fadd (Finite (3602879701896397 / 36028797018963968)) (Finite 0) =
                Finite (3602879701896397 / 36028797018963968)"
    by (simp only: small_loss fadd_zero_right)
  have t: "py_sum64 (dict_values (trappedFunds small_savings_scenario64)) = Finite 10"
    by (simp add: small_savings_scenario64_def py_sum64_def dict_values_def)
  show ?thesis
    by (simp add: project64_fields t small_percent small_loss fsub_def r
        del: fdiv_int.simps fmul.simps fadd.simps)
       (simp add: small_savings_scenario64_def small_percent small_loss r
        del: fdiv_int.simps fmul.simps fadd.simps)
qed

text \<open>The scenario with a loss rate of \<open>14.5\<close> percent and a consulting fee of \<open>261e9\<close>.\<close>

lemma round64_29_2: "round64 (29 / 2) = Finite (29 / 2)"
  using round64_fixed [of "- 1" 29] by simp

lemma valid_rounded_savings_scenario64: "valid_params64 rounded_savings_scenario64"
  by (simp add: valid_params64_def rounded_savings_scenario64_def default_trapped_funds64_def
      default_transactions_def dict_keys_def dict_values_def is_finite64_def round64_29_2)

lemma percent_29_2:
  "fdiv_int (Finite (29 / 2)) 100 = Finite (5224175567749775 / 36028797018963968)"
  using round64_eqI [of "29 / 2 / 100" "- 3" 5224175567749775] by simp

lemma loss_29_2:
  "fmul (Finite 1800000) (Finite (5224175567749775 / 36028797018963968)) =
     Finite (8967891714047999 / 34359738368)"
  using round64_eqI [of "1800000 * (5224175567749775 / 36028797018963968)" 17 8967891714047999]
  by simp

lemma round64_rounded_savings:
  "round64 (8967891714047999 / 34359738368) = Finite (8967891714047999 / 34359738368)"
  using round64_fixed [of "- 35" 8967891714047999] by simp

lemma netAnnualSavings_rounded64:
  "netAnnualSavings (project64 rounded_savings_scenario64) =
     Finite (8967891714047999 / 34359738368)"
  by (simp add: project64_fields rounded_savings_scenario64_def
      default_trapped_total64 percent_29_2 loss_29_2 fsub_def round64_rounded_savings
      del: fdiv_int.simps fmul.simps)

lemma rounded_year_1:
  "fsub (Finite (8967891714047999 / 34359738368)) (Finite 261000) = Finite (- (1 / 34359738368))"
  using round64_eqI [of "8967891714047999 / 34359738368 - 261000" "- 35" "- 4503599627370496"]
  by (simp add: fsub_def)

lemma round64_rounded_year_1: "round64 (- (1 / 34359738368)) = Finite (- (1 / 34359738368))"
  using round64_fixed [of "- 35" "- 1"] by simp

lemma rounded_year_2:
  "fadd (Finite (- (1 / 34359738368))) (Finite (8967891714047999 / 34359738368)) =
     Finite (4483945857023999 / 17179869184)"
  using round64_eqI [of "- (1 / 34359738368) + 8967891714047999 / 34359738368" 17 8967891714047998]
  by simp

text \<open>The scenario with funds of \<open>1\<close> and a consulting fee of \<open>1e18\<close>.\<close>

lemma round64_absorbing_fee: "round64 1000000000000000000 = Finite 1000000000000000000"
  using round64_fixed [of 7 7812500000000000] by simp

lemma valid_absorbing_scenario64: "valid_params64 absorbing_scenario64"
  by (simp add: valid_params64_def absorbing_scenario64_def
      default_transactions_def dict_keys_def dict_values_def is_finite64_def
      round64_absorbing_fee)

lemma round64_absorbing_savings:
  "round64 (- (3602879701896397 / 72057594037927936)) =
     Finite (- (3602879701896397 / 72057594037927936))"
  using round64_fixed [of "- 56" "- 3602879701896397"] by simp

lemma cost_absorbing:
  "fmul (Finite 1) (Finite (3602879701896397 / 72057594037927936)) =
     Finite (3602879701896397 / 72057594037927936)"
  using round64_fixed [of "- 56" "3602879701896397"] by simp

lemma netAnnualSavings_absorbing64:
  "netAnnualSavings (project64 absorbing_scenario64) =
     Finite (- (3602879701896397 / 72057594037927936))"
  by (simp add: project64_fields absorbing_scenario64_def py_sum64_def dict_values_def
      percent_5 cost_absorbing fsub_def round64_absorbing_savings
      del: fdiv_int.simps fmul.simps)

lemma absorbing_year_1:
  "fsub (Finite (- (3602879701896397 / 72057594037927936))) (Finite 1000000000000000000) =
     Finite (- 1000000000000000000)"
  using round64_eqI [of "- (3602879701896397 / 72057594037927936) - 1000000000000000000" 59
      "- 7812500000000000"]
  by (simp add: fsub_def)

lemma absorbing_year_2:
  "fadd (Finite (- 1000000000000000000)) (Finite (- (3602879701896397 / 72057594037927936))) =
     Finite (- 1000000000000000000)"
  using round64_eqI [of "- 1000000000000000000 + - (3602879701896397 / 72057594037927936)" 59
      "- 7812500000000000"]
  by simp

section \<open>The script in exact arithmetic\<close>

lemma savings_loop_append:
  "savings_loop nas fee ys tot acc = acc @ savings_loop nas fee ys tot []"
proof (induction ys arbitrary: tot acc)
  case Nil
  show ?case by simp
next
  case (Cons y ys)
  let ?t = "if y = 1 then tot + nas - fee else tot + nas"
  have "savings_loop nas fee (y # ys) tot acc = savings_loop nas fee ys ?t (acc @ [?t])"
    by (simp add: Let_def)
  also have "\<dots> = (acc @ [?t]) @ savings_loop nas fee ys ?t []"
    by (rule Cons.IH)
  also have "\<dots> = acc @ ([] @ [?t]) @ savings_loop nas fee ys ?t []"
    by simp
  also have "([] @ [?t]) @ savings_loop nas fee ys ?t [] = savings_loop nas fee ys ?t ([] @ [?t])"
    by (rule Cons.IH [symmetric])
  also have "savings_loop nas fee ys ?t ([] @ [?t]) = savings_loop nas fee (y # ys) tot []"
    by (simp add: Let_def)
  finally show ?case .
qed

lemma savings_loop_Cons:
  "savings_loop nas fee (y # ys) tot [] =
     (if y = 1 then tot + nas - fee else tot + nas) #
       savings_loop nas fee ys (if y = 1 then tot + nas - fee else tot + nas) []"
proof -
  let ?t = "if y = 1 then tot + nas - fee else tot + nas"
  have "savings_loop nas fee (y # ys) tot [] = savings_loop nas fee ys ?t [?t]"
    by (simp add: Let_def)
  also have "\<dots> = [?t] @ savings_loop nas fee ys ?t []"
    by (rule savings_loop_append)
  finally show ?thesis by simp
qed

text \<open>After year 1 every pass adds the net annual savings and nothing else.\<close>

lemma savings_loop_later_years:
  "2 \<le> i \<Longrightarrow>
   savings_loop nas fee [i..j] tot [] = map (\<lambda>y. tot + of_int (y - i + 1) * nas) [i..j]"
proof (induction "nat (j + 1 - i)" arbitrary: i tot)
  case 0
  then have "j < i" by simp
  then show ?case by simp
next
  case (Suc n)
  then have le: "i \<le> j" by simp
  have step: "[i..j] = i # [i + 1..j]" using le by (rule upto_rec1)
  have n: "n = nat (j + 1 - (i + 1))" using Suc.hyps(2) by simp
  have i2: "2 \<le> i + 1" and i1: "i \<noteq> 1" using Suc.prems by simp_all
  have IH: "savings_loop nas fee [i + 1..j] (tot + nas) [] =
              map (\<lambda>y. (tot + nas) + of_int (y - (i + 1) + 1) * nas) [i + 1..j]"
    using Suc.hyps(1) [OF n i2] .
  have "savings_loop nas fee [i..j] tot [] =
          (tot + nas) # savings_loop nas fee [i + 1..j] (tot + nas) []"
    unfolding step savings_loop_Cons using i1 by simp
  also have "\<dots> = (tot + nas) # map (\<lambda>y. (tot + nas) + of_int (y - (i + 1) + 1) * nas) [i + 1..j]"
    by (simp only: IH)
  also have "\<dots> = map (\<lambda>y. tot + of_int (y - i + 1) * nas) (i # [i + 1..j])"
    by (simp add: algebra_simps)
  finally show ?case by (simp only: step [symmetric])
qed

lemma savings_loop_closed:
  "savings_loop nas fee [1..years] 0 [] = map (\<lambda>y. of_int y * nas - fee) [1..years]"
proof (cases "1 \<le> years")
  case False
  then show ?thesis by simp
next
  case True
  have step: "[1..years] = 1 # [2..years]" using upto_rec1 [OF True] by simp
  have "savings_loop nas fee [1..years] 0 [] =
          (nas - fee) # savings_loop nas fee [2..years] (nas - fee) []"
    unfolding step savings_loop_Cons by simp
  also have "\<dots> = (nas - fee) # map (\<lambda>y. (nas - fee) + of_int (y - 2 + 1) * nas) [2..years]"
    by (simp add: savings_loop_later_years)
  also have "\<dots> = map (\<lambda>y. of_int y * nas - fee) (1 # [2..years])"
    by (simp add: algebra_simps)
  finally show ?thesis by (simp only: step [symmetric])
qed

lemma py_sum_sum_list: "py_sum xs = sum_list xs"
proof -
  have "foldl (\<lambda>acc x. acc + x) a xs = a + sum_list xs" for a :: rat
    by (induction xs arbitrary: a) (simp_all add: add.assoc)
  from this [of 0] show ?thesis by (simp add: py_sum_def)
qed

lemma calculate_savings_closed:
  "calculate_savings tf funds lr fee years =
     (map (\<lambda>y. of_int y * (py_sum (dict_values funds) * (lr / 100)
                              - py_sum (dict_values funds) * (tf / 100)) - fee) [1..years],
      py_sum (dict_values funds) * (lr / 100) - py_sum (dict_values funds) * (tf / 100),
      py_sum (dict_values funds) * (lr / 100),
      py_sum (dict_values funds) * (tf / 100))"
  by (simp add: calculate_savings_def Let_def savings_loop_closed)

lemma project_annualTrappedTotal:
  "annualTrappedTotal (project p) = py_sum (dict_values (trappedFunds p))"
  by (simp add: project_def calculate_savings_closed)

lemma project_annualCurrentLoss:
  "annualCurrentLoss (project p) = annualTrappedTotal (project p) * (annualLossRatePercent p / 100)"
  by (simp add: project_def calculate_savings_closed)

lemma project_annualBlockchainCost:
  "annualBlockchainCost (project p) =
     annualTrappedTotal (project p) * (transactionFeePercent p / 100)"
  by (simp add: project_def calculate_savings_closed)

lemma project_netAnnualSavings:
  "netAnnualSavings (project p) = annualCurrentLoss (project p) - annualBlockchainCost (project p)"
  by (simp add: project_def calculate_savings_closed)

lemma project_cumulative:
  "cumulativeSavingsByYear (project p) =
     map (\<lambda>y. of_int y * netAnnualSavings (project p) - consultingFee p) [1..horizonYears p]"
  by (simp add: project_def calculate_savings_closed)

lemma project_cumulative_calculate:
  "cumulativeSavingsByYear (project p) =
     fst (calculate_savings (transactionFeePercent p) (trappedFunds p)
            (annualLossRatePercent p) (consultingFee p) (horizonYears p))"
  by (simp add: project_def calculate_savings_closed)

lemma length_cumulative: "length (cumulativeSavingsByYear (project p)) = nat (horizonYears p)"
  by (simp add: project_cumulative)

lemma valid_average_estimate: "valid_params average_estimate"
  by (simp add: valid_params_def average_estimate_def default_trapped_funds_def
      default_transactions_def dict_keys_def dict_values_def)

lemma default_trapped_total: "py_sum (dict_values default_trapped_funds) = 1800000"
  by (simp add: py_sum_def dict_values_def default_trapped_funds_def)

lemma calculate_savings_average:
  "calculate_savings (9 / 4) default_trapped_funds 15 250000 10 =
     ([- 20500, 209000, 438500, 668000, 897500, 1127000, 1356500, 1586000, 1815500, 2045000],
      229500, 270000, 40500)"
  by (simp add: calculate_savings_closed default_trapped_total) (simp add: upto.simps)

lemma cumulative_zero_savings:
  assumes "netAnnualSavings (project p) = 0"
  shows "cumulativeSavingsByYear (project p) = replicate (nat (horizonYears p)) (- consultingFee p)"
  by (simp add: project_cumulative assms map_replicate_const)

lemma py_sum_zeros: "list_all (\<lambda>amount. amount = 0) xs \<Longrightarrow> py_sum xs = 0"
  by (induction xs) (simp_all add: py_sum_sum_list)

section \<open>The exact results in binary64\<close>

text \<open>
  The statements that are proved on the exact reading of the script, on the binary64
  model: the values of the preset, the length of the series, the results without
  trapped funds, and the independence of the transactions per year.
\<close>

lemma finite_percent:
  assumes "is_finite64 x"
  obtains r where "fdiv_int x 100 = Finite r"
proof -
  from assms obtain f where f: "x = Finite f" "round64 f = Finite f"
    by (auto simp: is_finite64_iff)
  have "- \<bar>f\<bar> \<le> f / 100" and "f / 100 \<le> \<bar>f\<bar>" by simp_all
  then have lo: "fle (round64 (- \<bar>f\<bar>)) (round64 (f / 100))"
    and hi: "fle (round64 (f / 100)) (round64 \<bar>f\<bar>)"
    by (simp_all only: round64_mono)
  have "round64 \<bar>f\<bar> = Finite \<bar>f\<bar>" using f(2) by (simp add: abs_if round64_minus)
  moreover have "round64 (- \<bar>f\<bar>) = Finite (- \<bar>f\<bar>)" using f(2) by (simp add: abs_if round64_minus)
  ultimately obtain r where "round64 (f / 100) = Finite r"
    using lo hi by (cases "round64 (f / 100)") simp_all
  then show ?thesis using that f(1) by simp
qed

lemma py_sum64_zeros: "list_all (\<lambda>amount. amount = Finite 0) xs \<Longrightarrow> py_sum64 xs = Finite 0"
  unfolding py_sum64_def by (induction xs) simp_all

lemma add_chain_zero: "is_f64 t \<Longrightarrow> add_chain (Finite 0) t n = replicate n t"
  by (induction n) (simp_all add: fadd_zero_right)

lemma savings_without_funds:
  assumes "is_finite64 tf" and "is_finite64 lr"
  shows "fsub (fmul (Finite 0) (fdiv_int lr 100)) (fmul (Finite 0) (fdiv_int tf 100)) = Finite 0"
proof -
  from assms(2) obtain a where a: "fdiv_int lr 100 = Finite a" by (rule finite_percent)
  from assms(1) obtain b where b: "fdiv_int tf 100 = Finite b" by (rule finite_percent)
  show ?thesis by (simp add: a b fsub_def)
qed

lemma cumulative_without_savings:
  assumes "is_finite64 fee" and "1 \<le> years"
  shows "savings_loop64 (Finite 0) fee [1..years] (Finite 0) [] = replicate (nat years) (fneg fee)"
proof -
  have f: "is_f64 (fneg fee)" using assms(1) by (simp add: is_finite64_is_f64)
  have "fsub (fadd (Finite 0) (Finite 0)) fee = fneg fee"
    using f by (simp add: fsub_def fadd_zero_left)
  then have "savings_loop64 (Finite 0) fee [1..years] (Finite 0) [] =
               fneg fee # replicate (nat (years - 1)) (fneg fee)"
    using f by (simp add: savings_loop64_closed [OF assms(2)] add_chain_zero)
  also have "\<dots> = replicate (Suc (nat (years - 1))) (fneg fee)" by simp
  also have "Suc (nat (years - 1)) = nat years" using assms(2) by simp
  finally show ?thesis .
qed

lemma average_scenario_values64:
  "calculate_savings64 (Finite (9 / 4)) default_trapped_funds64 (Finite 15) (Finite 250000) 10 =
     ([Finite (- 20500), Finite 209000, Finite 438500, Finite 668000, Finite 897500,
       Finite 1127000, Finite 1356500, Finite 1586000, Finite 1815500, Finite 2045000],
      Finite 229500, Finite 270000, Finite 40500)"
proof -
  have "savings_loop64 (Finite 229500) (Finite 250000) [1..10] (Finite 0) [] =
     [Finite (- 20500), Finite 209000, Finite 438500, Finite 668000, Finite 897500,
       Finite 1127000, Finite 1356500, Finite 1586000, Finite 1815500, Finite 2045000]"
    by (simp add: savings_loop64_closed fsub_def eval_nat_numeral)
  then show ?thesis
    by (simp add: calculate_savings64_def Let_def default_trapped_total64 percent_15 percent_9_4
        loss_15 cost_9_4 fsub_def del: fdiv_int.simps fmul.simps)
qed

lemma cumulative_length64:
  "valid_params64 p \<Longrightarrow> int (length (cumulativeSavingsByYear (project64 p))) = horizonYears p"
  using valid_params64_horizon [of p] by (simp add: length_cumulative64)

lemma zero_trapped_funds64:
  assumes "valid_params64 p"
    and "list_all (\<lambda>amount. amount = Finite 0) (dict_values (trappedFunds p))"
  shows "netAnnualSavings (project64 p) = Finite 0"
    and "cumulativeSavingsByYear (project64 p) =
           replicate (nat (horizonYears p)) (fneg (consultingFee p))"
proof -
  have t: "annualTrappedTotal (project64 p) = Finite 0"
    using assms(2) by (simp add: project64_annualTrappedTotal py_sum64_zeros)
  have "is_finite64 (transactionFeePercent p)" and "is_finite64 (annualLossRatePercent p)"
    using assms(1) by (simp_all add: valid_params64_def)
  then show nas: "netAnnualSavings (project64 p) = Finite 0"
    by (simp only: project64_netAnnualSavings project64_annualCurrentLoss
        project64_annualBlockchainCost t savings_without_funds)
  have "is_finite64 (consultingFee p)" and "1 \<le> horizonYears p"
    using assms(1) by (simp_all add: valid_params64_def)
  then show "cumulativeSavingsByYear (project64 p) =
           replicate (nat (horizonYears p)) (fneg (consultingFee p))"
    by (simp only: project64_cumulative nas cumulative_without_savings)
qed

lemma transactions_per_year_unused64:
  "project64 (p\<lparr>transactionsPerYear := t\<rparr>) = project64 p"
  by (simp add: project64_def)

lemma empty_trapped_funds64:
  assumes "is_finite64 tf" and "is_finite64 lr" and "is_finite64 fee" and "1 \<le> years"
  shows "py_sum64 (dict_values ([] :: f64 py_dict)) = Finite 0"
    and "calculate_savings64 tf [] lr fee years =
           (replicate (nat years) (fneg fee), Finite 0, Finite 0, Finite 0)"
    and "total_savings_over_period (fst (calculate_savings64 tf [] lr fee years)) =
           Inr (fneg fee)"
proof -
  from assms(2) obtain a where a: "fdiv_int lr 100 = Finite a" by (rule finite_percent)
  from assms(1) obtain b where b: "fdiv_int tf 100 = Finite b" by (rule finite_percent)
  show "py_sum64 (dict_values ([] :: f64 py_dict)) = Finite 0"
    by (simp add: py_sum64_def dict_values_def)
  show c: "calculate_savings64 tf [] lr fee years =
           (replicate (nat years) (fneg fee), Finite 0, Finite 0, Finite 0)"
    by (simp add: calculate_savings64_def Let_def py_sum64_def dict_values_def a b fsub_def
        cumulative_without_savings [OF assms(3,4)])
  have "0 < nat years" using assms(4) by simp
  then have "total_savings_over_period (replicate (nat years) (fneg fee)) = Inr (fneg fee)"
    by (simp add: total_savings_over_period_def)
  then show "total_savings_over_period (fst (calculate_savings64 tf [] lr fee years)) =
           Inr (fneg fee)"
    by (simp add: c)
qed

section \<open>The claims of the specification\<close>

subsection \<open>C1: the payback year\<close>

text \<open>
  Claim C1. The payback year is computed by an accumulation of its own over the years
  \<open>1..horizonYears\<close>, which adds \<open>netAnnualSavings\<close> each year and in year 1 subtracts
  \<open>consultingFee / 1,000,000\<close> (not the full fee); the payback year is the first year at
  which this running sum is at least \<open>0\<close>, and "not within horizon" is reported when no
  year up to \<open>horizonYears\<close> reaches that. In binary64, the loop of the source computes
  exactly the payback year of the specification's description, and the summary cell
  shows that year or "Not within horizon"; this holds for every input, valid or not.
\<close>

theorem payback_year_first_nonnegative_running_sum:
  "paybackYear (project64 p) =
     spec_payback_year64 (netAnnualSavings (project64 p)) (consultingFee p) (horizonYears p) \<and>
   payback_cell (paybackYear (project64 p)) =
     spec_payback_report64 (netAnnualSavings (project64 p)) (consultingFee p) (horizonYears p)"
proof -
  let ?s = "spec_payback_year64 (netAnnualSavings (project64 p)) (consultingFee p) (horizonYears p)"
  have year: "paybackYear (project64 p) = ?s"
    by (simp only: project64_paybackYear payback_period64_spec [OF is_f64_netAnnualSavings])
  have "payback_cell ?s =
          spec_payback_report64 (netAnnualSavings (project64 p)) (consultingFee p) (horizonYears p)"
  proof (cases ?s)
    case None
    then show ?thesis by (simp add: payback_cell_def spec_payback_report64_def)
  next
    case (Some y)
    then have "y \<noteq> 0" using spec_payback_year64_range [OF Some] by simp
    with Some show ?thesis by (simp add: payback_cell_def spec_payback_report64_def)
  qed
  with year show ?thesis by simp
qed

text \<open>
  The division by \<open>1,000,000\<close> shows at the preset "Average Estimate": the payback year is
  year 1 although the cumulative savings of year 1, which pay the full fee, are negative.
\<close>

lemma payback_average_estimate64:
  "paybackYear (project64 average_estimate64) = Some 1 \<and>
   flt (cumulativeSavingsByYear (project64 average_estimate64) ! 0) (Finite 0)"
proof -
  have h: "horizonYears average_estimate64 = 10"
    and f: "consultingFee average_estimate64 = Finite 250000"
    by (simp_all add: average_estimate64_def)
  have r: "round64 (917999 / 4) = Finite (917999 / 4)"
    using round64_fixed [of "- 2" 917999] by simp
  have d: "fdiv_int (Finite 250000) 1000000 = Finite (1 / 4)"
    by (simp add: round64_quarters)
  have s: "payback_step (Finite 229500) (Finite 250000) (Finite 0) 1 = Finite (917999 / 4)"
    by (simp add: payback_step_def fsub_def r d del: fdiv_int.simps)
  have "[1..10] = 1 # [2..10]" by (simp add: upto_rec1)
  then have "payback_period64 (Finite 229500) (Finite 250000) 10 = Some 1"
    by (simp add: payback_period64_def payback_loop64_None_Cons s del: payback_loop64.simps)
  then have "paybackYear (project64 average_estimate64) = Some 1"
    by (simp add: project64_paybackYear netAnnualSavings_average64 h f)
  moreover have "cumulativeSavingsByYear (project64 average_estimate64) ! 0 = Finite (- 20500)"
    by (simp add: project64_cumulative_closed h f netAnnualSavings_average64 fsub_def)
  ultimately show ?thesis by simp
qed

text \<open>
  Rounding decides the payback year as well. With funds of \<open>10\<close>, a loss rate of \<open>1\<close>
  percent, no fee and a consulting fee of \<open>1,000,000\<close>, the net annual savings are the
  binary64 number next to \<open>0.1\<close> and the scaled fee is \<open>1\<close>; in exact arithmetic ten
  years would give a running sum of \<open>0\<close> or more, but the ten rounded sums of the loop
  all stay below \<open>0\<close>, and the loop finds no payback year.
\<close>

lemma payback_small_savings64:
  "valid_params64 small_savings_scenario64 \<and>
   paybackYear (project64 small_savings_scenario64) = None"
proof -
  have v: "valid_params64 small_savings_scenario64"
    by (simp add: valid_params64_def small_savings_scenario64_def
        default_transactions_def dict_keys_def dict_values_def is_finite64_def)
  have h: "horizonYears small_savings_scenario64 = 10"
    and f: "consultingFee small_savings_scenario64 = Finite 1000000"
    by (simp_all add: small_savings_scenario64_def)
  have l: "[1..10] = [1, 2, 3, 4, 5, 6, 7, 8, 9, 10::int]" by (simp add: upto.simps)
  have r: "fadd (Finite 0) (Finite (- (8106479329266893 / 9007199254740992))) =
           Finite (- (8106479329266893 / 9007199254740992))"
    using is_f64_fsub [of "Finite (3602879701896397 / 36028797018963968)" "Finite 1"]
    by (simp only: small_year_1 fadd_zero_left)
  have "payback_period64 (Finite (3602879701896397 / 36028797018963968)) (Finite 1000000) 10 = None"
    unfolding payback_period64_def l
    by (simp add: Let_def small_fee small_years r del: fdiv_int.simps fadd.simps)
  then show ?thesis
    by (simp add: v project64_paybackYear netAnnualSavings_small64 h f)
qed

text \<open>
  With the preset funds, a loss rate of \<open>14.5\<close> percent, no fee and a consulting fee of
  \<open>261e9\<close>, the net annual savings are \<open>260999.99999999997\<close>, just below the scaled
  fee of \<open>261000\<close>: the running sum of year 1 is negative and the payback year is year
  2. In exact arithmetic the net annual savings would be \<open>261000\<close> and the payback year
  would be year 1.
\<close>

lemma payback_rounded_savings64:
  "valid_params64 rounded_savings_scenario64 \<and>
   netAnnualSavings (project64 rounded_savings_scenario64) =
     Finite (8967891714047999 / 34359738368) \<and>
   paybackYear (project64 rounded_savings_scenario64) = Some 2"
proof -
  let ?a = "Finite (8967891714047999 / 34359738368)"
  have h: "horizonYears rounded_savings_scenario64 = 10"
    and f: "consultingFee rounded_savings_scenario64 = Finite 261000000000"
    by (simp_all add: rounded_savings_scenario64_def)
  have d: "fdiv_int (Finite 261000000000) 1000000 = Finite 261000"
    by simp
  have s1: "payback_step ?a (Finite 261000000000) (Finite 0) 1 = Finite (- (1 / 34359738368))"
    by (simp add: payback_step_def d rounded_year_1 round64_rounded_year_1
        del: fdiv_int.simps)
  have s2: "payback_step ?a (Finite 261000000000) (Finite (- (1 / 34359738368))) 2 =
              Finite (4483945857023999 / 17179869184)"
    by (simp add: payback_step_def rounded_year_2 del: fadd.simps)
  have "[1..10] = 1 # 2 # [3..10]" by (simp add: upto_rec1)
  then have "payback_period64 ?a (Finite 261000000000) 10 = Some 2"
    by (simp add: payback_period64_def payback_loop64_None_Cons s1 s2 del: payback_loop64.simps)
  then show ?thesis
    by (simp add: valid_rounded_savings_scenario64 project64_paybackYear
        netAnnualSavings_rounded64 h f)
qed

subsection \<open>C2: the steps of the cumulative savings\<close>

text \<open>
  Claim C2 says that, for every valid input, the cumulative savings are monotonically
  non-decreasing, each step after year 1 being exactly \<open>netAnnualSavings\<close> and the value
  of year 1 being \<open>netAnnualSavings - consultingFee\<close>. Two valid inputs refute it. The net
  annual savings may be negative, and then the series decreases: with the loss rate at
  \<open>0\<close> and the fee at \<open>5\<close> percent the two years are \<open>-340,000\<close> and \<open>-430,000\<close>. And a
  step is the rounded sum, not the exact one: with a loss rate of \<open>3.5\<close> percent the net
  annual savings are \<open>63000.00000000001\<close>, while year 2 less year 1 is \<open>63000\<close>.
\<close>

theorem cumulative_not_monotone_counterexample:
  "valid_params64 loss_making_scenario64 \<and>
   cumulativeSavingsByYear (project64 loss_making_scenario64) =
     [Finite (- 340000), Finite (- 430000)] \<and>
   \<not> sorted_wrt fle (cumulativeSavingsByYear (project64 loss_making_scenario64)) \<and>
   valid_params64 rounding_scenario64 \<and>
   netAnnualSavings (project64 rounding_scenario64) =
     Finite (8658654068736001 / 137438953472) \<and>
   fsub (cumulativeSavingsByYear (project64 rounding_scenario64) ! 1)
        (cumulativeSavingsByYear (project64 rounding_scenario64) ! 0) = Finite 63000 \<and>
   fsub (cumulativeSavingsByYear (project64 rounding_scenario64) ! 1)
        (cumulativeSavingsByYear (project64 rounding_scenario64) ! 0) \<noteq>
     netAnnualSavings (project64 rounding_scenario64)"
proof -
  have "fsub (Finite (- 124000)) (Finite (- 187000)) = Finite 63000"
    by (simp add: fsub_def)
  then show ?thesis
    by (simp add: valid_loss_making_scenario64 cumulative_loss_making64
        valid_rounding_scenario64 netAnnualSavings_rounding64 cumulative_rounding64
        del: One_nat_def)
qed

text \<open>
  Claim C2 as amended. For every valid input, the value of year 1 is
  \<open>netAnnualSavings - consultingFee\<close>, and the value of every year \<open>y > 1\<close> is the value of
  year \<open>y - 1\<close> plus \<open>netAnnualSavings\<close>, each with the one rounding of its binary64
  operation; the series is monotonically non-decreasing whenever \<open>netAnnualSavings\<close> is
  at least \<open>0\<close>, and non-increasing whenever it is at most \<open>0\<close>. Year \<open>y\<close> is the element
  of index \<open>y - 1\<close> of the list.
\<close>

theorem cumulative_savings_steps:
  assumes "valid_params64 p"
  shows "cumulativeSavingsByYear (project64 p) ! 0 =
           fsub (netAnnualSavings (project64 p)) (consultingFee p) \<and>
         (\<forall>y. 1 < y \<and> y \<le> horizonYears p \<longrightarrow>
                cumulativeSavingsByYear (project64 p) ! nat (y - 1) =
                  fadd (cumulativeSavingsByYear (project64 p) ! nat (y - 2))
                    (netAnnualSavings (project64 p))) \<and>
         (fle (Finite 0) (netAnnualSavings (project64 p)) \<longrightarrow>
            sorted_wrt fle (cumulativeSavingsByYear (project64 p))) \<and>
         (fle (netAnnualSavings (project64 p)) (Finite 0) \<longrightarrow>
            sorted_wrt (\<lambda>x y. fle y x) (cumulativeSavingsByYear (project64 p)))"
proof (intro conjI allI impI)
  let ?a = "netAnnualSavings (project64 p)"
  let ?t = "fsub ?a (consultingFee p)"
  let ?n = "nat (horizonYears p - 1)"
  have h: "1 \<le> horizonYears p" using assms by (rule valid_params64_horizon)
  note closed = project64_cumulative_closed [OF h]
  from assms obtain f where fee: "consultingFee p = Finite f" "round64 f = Finite f" "0 \<le> f"
    by (rule valid_params64_fee)
  show "cumulativeSavingsByYear (project64 p) ! 0 = ?t" by (simp add: closed)
  show "cumulativeSavingsByYear (project64 p) ! nat (y - 1) =
          fadd (cumulativeSavingsByYear (project64 p) ! nat (y - 2)) ?a"
    if "1 < y \<and> y \<le> horizonYears p" for y
  proof -
    from that have k: "nat (y - 2) < ?n" and s: "nat (y - 1) = Suc (nat (y - 2))" by arith+
    show ?thesis unfolding closed s using k by (rule nth_add_chain)
  qed
  show "sorted_wrt fle (cumulativeSavingsByYear (project64 p))" if "fle (Finite 0) ?a"
    unfolding closed
    using that first_value_up [OF fee(2) that] by (intro add_chain_up) (simp_all add: fee(1))
  show "sorted_wrt (\<lambda>x y. fle y x) (cumulativeSavingsByYear (project64 p))" if "fle ?a (Finite 0)"
    unfolding closed
    using that first_value_down [OF fee(3) that] by (intro add_chain_down) (simp_all add: fee(1))
qed

theorem cumulative_savings_steps_witness:
  "valid_params64 average_estimate64 \<and>
   cumulativeSavingsByYear (project64 average_estimate64) ! 0 = Finite (- 20500) \<and>
   cumulativeSavingsByYear (project64 average_estimate64) ! 1 =
     fadd (cumulativeSavingsByYear (project64 average_estimate64) ! 0) (Finite 229500) \<and>
   sorted_wrt fle (cumulativeSavingsByYear (project64 average_estimate64))"
proof -
  note t = cumulative_savings_steps [OF valid_average_estimate64]
  have fee: "consultingFee average_estimate64 = Finite 250000"
    and h: "horizonYears average_estimate64 = 10"
    by (simp_all add: average_estimate64_def)
  from t have "cumulativeSavingsByYear (project64 average_estimate64) ! 0 =
                 fsub (Finite 229500) (Finite 250000)"
    by (simp only: netAnnualSavings_average64 fee)
  then have a: "cumulativeSavingsByYear (project64 average_estimate64) ! 0 = Finite (- 20500)"
    by (simp add: fsub_def)
  from t have "1 < (2::int) \<and> 2 \<le> horizonYears average_estimate64 \<longrightarrow>
      cumulativeSavingsByYear (project64 average_estimate64) ! nat (2 - 1) =
        fadd (cumulativeSavingsByYear (project64 average_estimate64) ! nat (2 - 2))
          (netAnnualSavings (project64 average_estimate64))"
    by blast
  then have b: "cumulativeSavingsByYear (project64 average_estimate64) ! 1 =
     fadd (cumulativeSavingsByYear (project64 average_estimate64) ! 0) (Finite 229500)"
    by (simp add: h netAnnualSavings_average64)
  from t have "fle (Finite 0) (netAnnualSavings (project64 average_estimate64)) \<longrightarrow>
      sorted_wrt fle (cumulativeSavingsByYear (project64 average_estimate64))"
    by blast
  then have c: "sorted_wrt fle (cumulativeSavingsByYear (project64 average_estimate64))"
    by (simp add: netAnnualSavings_average64)
  from a b c valid_average_estimate64 show ?thesis by blast
qed

text \<open>
  The converse fails: a series can be non-decreasing although the net annual savings are
  negative. With funds of \<open>1\<close>, a fee of \<open>5\<close> percent and a consulting fee of \<open>1e18\<close>,
  the net annual savings are about \<open>-0.05\<close>, and both years round to \<open>-1e18\<close>.
\<close>

lemma cumulative_absorbed64:
  "valid_params64 absorbing_scenario64 \<and>
   flt (netAnnualSavings (project64 absorbing_scenario64)) (Finite 0) \<and>
   cumulativeSavingsByYear (project64 absorbing_scenario64) =
     [Finite (- 1000000000000000000), Finite (- 1000000000000000000)] \<and>
   sorted_wrt fle (cumulativeSavingsByYear (project64 absorbing_scenario64))"
proof -
  have h: "horizonYears absorbing_scenario64 = 2"
    and f: "consultingFee absorbing_scenario64 = Finite 1000000000000000000"
    by (simp_all add: absorbing_scenario64_def)
  have c: "cumulativeSavingsByYear (project64 absorbing_scenario64) =
     [Finite (- 1000000000000000000), Finite (- 1000000000000000000)]"
    by (simp add: project64_cumulative_closed h f netAnnualSavings_absorbing64
        absorbing_year_1 absorbing_year_2 add_chain_1 del: fadd.simps)
  show ?thesis
    by (simp add: valid_absorbing_scenario64 netAnnualSavings_absorbing64 c)
qed

subsection \<open>C3: the preset "Average Estimate"\<close>

text \<open>
  Claim C3 lists the results for the trapped funds \<open>{Bangladesh: 1,000,000, Pakistan:
  500,000, Others: 300,000}\<close>, a loss rate of \<open>15\<close> percent, a fee of \<open>2.25\<close> percent, a
  consulting fee of \<open>250,000\<close> and a horizon of \<open>10\<close> years. Its last figure is wrong: ten
  years of \<open>229,500\<close> less the fee of \<open>250,000\<close> are \<open>2,045,000\<close>, not \<open>2,045,500\<close>.
\<close>

theorem average_scenario_year_10_counterexample:
  "fst (calculate_savings (9 / 4) default_trapped_funds 15 250000 10) ! 9 \<noteq> 2045500"
  by (simp add: calculate_savings_average)

text \<open>
  Claim C3 as amended. For that input the sum of the trapped funds is \<open>1,800,000\<close>, and
  \<^verbatim>\<open>calculate_savings\<close> returns the annual current loss \<open>270,000\<close>, the annual
  blockchain cost \<open>40,500\<close>, the net annual savings \<open>229,500\<close> and the cumulative savings
  \<open>-20,500\<close> for year 1, \<open>209,000\<close> for year 2 and \<open>2,045,000\<close> for year 10.
\<close>

theorem average_scenario_values:
  "py_sum (dict_values default_trapped_funds) = 1800000 \<and>
   calculate_savings (9 / 4) default_trapped_funds 15 250000 10 =
     ([- 20500, 209000, 438500, 668000, 897500, 1127000, 1356500, 1586000, 1815500, 2045000],
      229500, 270000, 40500) \<and>
   fst (calculate_savings (9 / 4) default_trapped_funds 15 250000 10) ! 0 = - 20500 \<and>
   fst (calculate_savings (9 / 4) default_trapped_funds 15 250000 10) ! 1 = 209000 \<and>
   fst (calculate_savings (9 / 4) default_trapped_funds 15 250000 10) ! 9 = 2045000"
  by (simp add: calculate_savings_average default_trapped_total)

text \<open>
  In binary64 the script returns the same figures for this input: lemma
  \<open>average_scenario_values64\<close>.
\<close>

subsection \<open>C4: no payback without savings\<close>

text \<open>
  Claim C4 says that, if \<open>netAnnualSavings\<close> is at most \<open>0\<close> and \<open>consultingFee\<close> is
  positive, the cumulative savings are non-increasing and the payback year is reported
  as "not within horizon". The payback loop subtracts \<open>consultingFee / 1,000,000\<close>, and
  for a tiny fee this quotient underflows to \<open>0\<close>: without trapped funds and with a
  consulting fee of \<open>2 ^ - 1074\<close>, the running sum of year 1 is \<open>0\<close> and the payback year
  is year 1.
\<close>

theorem payback_year_underflow_counterexample:
  "valid_params64 underflow_scenario64 \<and>
   fle (netAnnualSavings (project64 underflow_scenario64)) (Finite 0) \<and>
   flt (Finite 0) (consultingFee underflow_scenario64) \<and>
   paybackYear (project64 underflow_scenario64) = Some 1 \<and>
   payback_cell (paybackYear (project64 underflow_scenario64)) = Year 1"
proof -
  have h: "horizonYears underflow_scenario64 = 10"
    and f: "consultingFee underflow_scenario64 = Finite smallest_f64"
    by (simp_all add: underflow_scenario64_def)
  have s: "payback_step (Finite 0) (Finite smallest_f64) (Finite 0) 1 = Finite 0"
    by (simp add: payback_step_def fsub_def fee_underflow del: fdiv_int.simps)
  have "[1..10] = 1 # [2..10]" by (simp add: upto_rec1)
  then have "payback_period64 (Finite 0) (Finite smallest_f64) 10 = Some 1"
    by (simp add: payback_period64_def payback_loop64_None_Cons s del: payback_loop64.simps)
  then have p: "paybackYear (project64 underflow_scenario64) = Some 1"
    by (simp add: project64_paybackYear netAnnualSavings_underflow64 h f)
  show ?thesis
    by (simp add: valid_underflow_scenario64 netAnnualSavings_underflow64 f smallest_f64_pos p
        payback_cell_def)
qed

text \<open>
  Claim C4 as amended. For every valid input with \<open>netAnnualSavings\<close> at most \<open>0\<close> and a
  positive \<open>consultingFee\<close>, and with \<open>netAnnualSavings\<close> below \<open>0\<close> or the binary64
  quotient \<open>consultingFee / 1,000,000\<close> above \<open>0\<close>: the cumulative savings are
  non-increasing, the running sum of the payback loop is below \<open>0\<close> in every year of the
  horizon, and the payback year is reported as "not within horizon".
\<close>

theorem no_payback_without_savings:
  assumes "valid_params64 p"
    and "fle (netAnnualSavings (project64 p)) (Finite 0)"
    and "flt (Finite 0) (consultingFee p)"
    and "flt (netAnnualSavings (project64 p)) (Finite 0) \<or>
         flt (Finite 0) (fdiv_int (consultingFee p) 1000000)"
  shows "sorted_wrt (\<lambda>x y. fle y x) (cumulativeSavingsByYear (project64 p)) \<and>
         list_all (\<lambda>y. flt (spec_running_sum64 (netAnnualSavings (project64 p)) (consultingFee p) y)
                        (Finite 0)) [1..horizonYears p] \<and>
         paybackYear (project64 p) = None \<and>
         payback_cell (paybackYear (project64 p)) = Not_within_horizon"
proof (intro conjI)
  let ?a = "netAnnualSavings (project64 p)"
  have h: "1 \<le> horizonYears p" using assms(1) by (rule valid_params64_horizon)
  from assms(1) obtain f where fee: "consultingFee p = Finite f" "round64 f = Finite f" "0 \<le> f"
    by (rule valid_params64_fee)
  from fee(2,3) obtain d where d: "fdiv_int (Finite f) 1000000 = Finite d" "round64 d = Finite d" "0 \<le> d"
    by (rule scaled_fee)
  have strict: "flt ?a (Finite 0) \<or> 0 < d" using assms(4) unfolding fee(1) d(1) by simp
  show "sorted_wrt (\<lambda>x y. fle y x) (cumulativeSavingsByYear (project64 p))"
    unfolding project64_cumulative_closed [OF h]
    using assms(2) first_value_down [OF fee(3) assms(2)]
    by (intro add_chain_down) (simp_all add: fee(1))
  have neg: "flt (spec_running_sum64 ?a (consultingFee p) y) (Finite 0)" if "1 \<le> y" for y
    using is_f64_netAnnualSavings assms(2) d(2,3) strict _ that
    by (rule running_sum_negative64) (simp only: fee(1) d(1))
  then show "list_all (\<lambda>y. flt (spec_running_sum64 ?a (consultingFee p) y) (Finite 0))
               [1..horizonYears p]"
    by (simp add: list_all_iff)
  have "spec_payback_year64 ?a (consultingFee p) (horizonYears p) = None"
    unfolding spec_payback_year64_None_iff using neg by (auto dest: flt_not_fle)
  then show none: "paybackYear (project64 p) = None"
    by (simp only: project64_paybackYear payback_period64_spec [OF is_f64_netAnnualSavings])
  show "payback_cell (paybackYear (project64 p)) = Not_within_horizon"
    by (simp add: none payback_cell_def)
qed

theorem no_payback_without_savings_witness:
  "valid_params64 loss_making_scenario64 \<and>
   fle (netAnnualSavings (project64 loss_making_scenario64)) (Finite 0) \<and>
   flt (Finite 0) (consultingFee loss_making_scenario64) \<and>
   flt (netAnnualSavings (project64 loss_making_scenario64)) (Finite 0) \<and>
   sorted_wrt (\<lambda>x y. fle y x) (cumulativeSavingsByYear (project64 loss_making_scenario64)) \<and>
   paybackYear (project64 loss_making_scenario64) = None \<and>
   payback_cell (paybackYear (project64 loss_making_scenario64)) = Not_within_horizon"
proof -
  have a: "fle (netAnnualSavings (project64 loss_making_scenario64)) (Finite 0)"
    and c: "flt (netAnnualSavings (project64 loss_making_scenario64)) (Finite 0)"
    by (simp_all add: netAnnualSavings_loss_making64)
  have b: "flt (Finite 0) (consultingFee loss_making_scenario64)"
    by (simp add: loss_making_scenario64_def)
  from no_payback_without_savings [OF valid_loss_making_scenario64 a b disjI1 [OF c]]
    valid_loss_making_scenario64 a b c
  show ?thesis by blast
qed

text \<open>
  The quotient is above \<open>0\<close> for every consulting fee of at least \<open>2 ^ - 1054\<close>, which is
  about \<open>5e-318\<close>.
\<close>

lemma fee_not_underflowing:
  assumes "round64 f = Finite f" and "1 / 2 ^ 1054 \<le> f"
  shows "flt (Finite 0) (fdiv_int (Finite f) 1000000)"
proof -
  have e: "round64 (1 / 2 ^ 1054 / 1000000) = Finite smallest_f64"
    using round64_eqI [of "1 / 2 ^ 1054 / 1000000" "- 1022" 1] by (simp add: smallest_f64_def)
  have "1 / 2 ^ 1054 / 1000000 \<le> f / 1000000" using assms(2) by (simp add: divide_right_mono)
  then have "fle (round64 (1 / 2 ^ 1054 / 1000000)) (round64 (f / 1000000))"
    by (rule round64_mono)
  then have "fle (Finite smallest_f64) (round64 (f / 1000000))" by (simp only: e)
  then show ?thesis
    using smallest_f64_pos by (cases "round64 (f / 1000000)") simp_all
qed

subsection \<open>C5: the length of the cumulative savings\<close>

text \<open>
  Claim C5. For every valid input, in particular for every horizon of at least one year,
  the list of cumulative savings that \<^verbatim>\<open>calculate_savings\<close> returns has exactly
  \<open>horizonYears\<close> elements.
\<close>

theorem cumulative_length:
  assumes "valid_params p"
  shows "int (length (fst (calculate_savings (transactionFeePercent p) (trappedFunds p)
            (annualLossRatePercent p) (consultingFee p) (horizonYears p)))) = horizonYears p \<and>
         int (length (cumulativeSavingsByYear (project p))) = horizonYears p"
proof -
  have "1 \<le> horizonYears p" using assms by (simp add: valid_params_def)
  then show ?thesis
    by (simp add: project_cumulative_calculate [symmetric] length_cumulative)
qed

theorem cumulative_length_witness:
  "valid_params average_estimate \<and>
   length (cumulativeSavingsByYear (project average_estimate)) = 10"
proof -
  have "horizonYears average_estimate = 10" by (simp add: average_estimate_def)
  with cumulative_length [OF valid_average_estimate] valid_average_estimate
  show ?thesis by simp
qed

text \<open>
  The length does not depend on the arithmetic; the same holds of the binary64 model:
  lemma \<open>cumulative_length64\<close>.
\<close>

subsection \<open>C6: the cumulative savings of year 1\<close>




subsection \<open>C7: no trapped funds at all\<close>

text \<open>
  Claim C7. If the trapped funds of every entity are \<open>0\<close>, then \<open>netAnnualSavings\<close> is
  \<open>0\<close> whatever the loss rate and the fee, and every element of the cumulative savings
  is \<open>- consultingFee\<close>: that is \<open>0\<close> when the consulting fee is \<open>0\<close>.
\<close>

theorem zero_trapped_funds:
  assumes "list_all (\<lambda>amount. amount = 0) (dict_values (trappedFunds p))"
  shows "netAnnualSavings (project p) = 0 \<and>
         cumulativeSavingsByYear (project p) =
           replicate (nat (horizonYears p)) (- consultingFee p) \<and>
         (consultingFee p = 0 \<longrightarrow>
            cumulativeSavingsByYear (project p) = replicate (nat (horizonYears p)) 0)"
proof -
  have "annualTrappedTotal (project p) = 0"
    using assms by (simp add: project_annualTrappedTotal py_sum_zeros)
  then have nas: "netAnnualSavings (project p) = 0"
    by (simp add: project_netAnnualSavings project_annualCurrentLoss project_annualBlockchainCost)
  then have "cumulativeSavingsByYear (project p) =
               replicate (nat (horizonYears p)) (- consultingFee p)"
    by (rule cumulative_zero_savings)
  with nas show ?thesis by simp
qed

theorem zero_trapped_funds_witness:
  "list_all (\<lambda>amount. amount = 0) (dict_values (trappedFunds zero_funds_scenario)) \<and>
   netAnnualSavings (project zero_funds_scenario) = 0 \<and>
   cumulativeSavingsByYear (project zero_funds_scenario) = replicate 10 (- 250000)"
proof -
  have z: "list_all (\<lambda>amount. amount = 0) (dict_values (trappedFunds zero_funds_scenario))"
    by (simp add: zero_funds_scenario_def dict_values_def)
  have "horizonYears zero_funds_scenario = 10" and "consultingFee zero_funds_scenario = 250000"
    by (simp_all add: zero_funds_scenario_def)
  with zero_trapped_funds [OF z] z show ?thesis by simp
qed

text \<open>
  On these inputs every operation of the script is exact in binary64, for finite rates
  and a finite fee; the same holds of the binary64 model: lemma \<open>zero_trapped_funds64\<close>.
\<close>

subsection \<open>C8: the transactions per year\<close>

text \<open>
  Claim C8. Two inputs that differ only in the mapping \<open>transactionsPerYear\<close> have the
  same results, field by field: the mapping is displayed and never used in a computation.
\<close>

theorem transactions_per_year_unused:
  "project (p\<lparr>transactionsPerYear := t\<rparr>) = project p"
  by (simp add: project_def)

text \<open>The same holds of the binary64 model: lemma \<open>transactions_per_year_unused64\<close>.\<close>

subsection \<open>C9: determinism\<close>

text \<open>
  Claim C9 says that the computation is deterministic and free of side effects. It is a
  statement about runs of the script. Here a run is a function of its six inputs, both
  loops starting from values that the script sets itself (\<open>0\<close>, the empty list,
  \<^verbatim>\<open>None\<close>); that functions give equal results on equal arguments holds of every
  definition and says nothing about the script, so no theorem is stated for this claim.
\<close>

subsection \<open>C10: an empty mapping of trapped funds\<close>

text \<open>
  Claim C10. For every consulting fee of at least \<open>0\<close> and every horizon of at least one
  year, \<^verbatim>\<open>calculate_savings\<close> on an empty mapping of trapped funds returns normally:
  the sum of the trapped funds is \<open>0\<close>, the savings, the loss and the cost are \<open>0\<close>, and
  every element of the cumulative savings is \<open>- consultingFee\<close>. The function has no
  branch that raises; the one place of the script that can, the read of the last
  cumulative value, succeeds as well.
\<close>

theorem empty_trapped_funds:
  assumes "0 \<le> fee" and "1 \<le> years"
  shows "py_sum (dict_values ([] :: rat py_dict)) = 0 \<and>
         calculate_savings tf [] lr fee years = (replicate (nat years) (- fee), 0, 0, 0) \<and>
         total_savings_over_period (fst (calculate_savings tf [] lr fee years)) = Inr (- fee)"
proof -
  have s: "py_sum (dict_values ([] :: rat py_dict)) = 0"
    by (simp add: py_sum_def dict_values_def)
  have c: "calculate_savings tf [] lr fee years = (replicate (nat years) (- fee), 0, 0, 0)"
    by (simp add: calculate_savings_closed s map_replicate_const)
  have "0 < nat years" using assms(2) by simp
  then have "total_savings_over_period (replicate (nat years) (- fee)) = Inr (- fee)"
    by (simp add: total_savings_over_period_def)
  with s c show ?thesis by simp
qed

theorem empty_trapped_funds_witness:
  "(0::rat) \<le> 250000 \<and> (1::int) \<le> 10 \<and>
   calculate_savings (9 / 4) [] 15 250000 10 = (replicate 10 (- 250000), 0, 0, 0) \<and>
   total_savings_over_period (fst (calculate_savings (9 / 4) [] 15 250000 10)) = Inr (- 250000)"
proof -
  have a: "(0::rat) \<le> 250000" and b: "(1::int) \<le> 10" by simp_all
  have n: "nat 10 = 10" by simp
  from empty_trapped_funds [OF a b, of "9 / 4" 15, unfolded n] a b show ?thesis by blast
qed

text \<open>
  On the empty mapping every operation of the script is exact in binary64, for finite
  rates and a finite fee; the same holds of the binary64 model: lemma
  \<open>empty_trapped_funds64\<close>.
\<close>

end
